theory Spec2Isabelle
  imports Complex_Main
begin

section \<open>Machine values\<close>

text \<open>
  A C++ \<open>int\<close> is a 32-bit signed integer. Signed overflow and the conversion of a
  floating-point value outside the target range are undefined behaviour; the model makes
  each of them an explicit fault instead of computing a value.
\<close>

datatype fault = SignedOverflow | FloatToIntegerOverflow

definition INT_MAX :: int where
  "INT_MAX = 2147483647"

definition INT_MIN :: int where
  "INT_MIN = - 2147483648"

definition INT64_MAX :: int where
  "INT64_MAX = 9223372036854775807"

definition INT64_MIN :: int where
  "INT64_MIN = - 9223372036854775808"

text \<open>
  A \<open>double\<close> is either not-a-number, an infinity, or a finite value. Finite values are
  carried as rationals (every finite double is one); the sign of zero is not observable in
  the functions below.
\<close>

datatype double = NaN | PosInf | NegInf | Finite rat

text \<open>The characters the sources compare against.\<close>

definition NUL :: char where
  "NUL = CHR 0x00"

definition DQUOTE :: char where
  "DQUOTE = CHR 0x22"

definition LF :: char where
  "LF = CHR 0x0A"

definition CR :: char where
  "CR = CHR 0x0D"

definition BACKSLASH :: char where
  "BACKSLASH = CHR 0x5C"

definition SLASH :: char where
  "SLASH = CHR ''/''"

text \<open>The character classes of \<open>cctype\<close> in the C locale.\<close>

definition code :: "char \<Rightarrow> int" where
  "code c = of_char c"

definition isdigit :: "char \<Rightarrow> bool" where
  "isdigit c = (48 \<le> code c \<and> code c \<le> 57)"

definition isupper :: "char \<Rightarrow> bool" where
  "isupper c = (65 \<le> code c \<and> code c \<le> 90)"

definition islower :: "char \<Rightarrow> bool" where
  "islower c = (97 \<le> code c \<and> code c \<le> 122)"

definition isalpha :: "char \<Rightarrow> bool" where
  "isalpha c = (isupper c \<or> islower c)"

definition toupper :: "char \<Rightarrow> char" where
  "toupper c = (if islower c then char_of (code c - 32) else c)"

section \<open>Cell data (core.hpp, types.cpp)\<close>

record CellCoordinate =
  row :: int
  column :: int

datatype CellType = Boolean | Number | SharedString | InlineString | String | Error | Unknown

text \<open>
  \<open>CellValue\<close> is a \<open>std::variant\<close> over \<open>std::monostate\<close>, \<open>std::string\<close>, \<open>double\<close>,
  \<open>bool\<close> and \<open>int\<close> (the alternatives the accessors of \<open>CellData\<close> test for).
\<close>

datatype CellValue = Monostate | StringV string | DoubleV double | BoolV bool | IntV int

record CellData =
  coordinate :: CellCoordinate
  type :: CellType
  styleIndex :: int
  "value" :: CellValue

definition getString :: "CellData \<Rightarrow> string" where
  "getString cell = (case value cell of StringV s \<Rightarrow> s | _ \<Rightarrow> [])"

definition getNumber :: "CellData \<Rightarrow> double" where
  "getNumber cell = (case value cell of DoubleV d \<Rightarrow> d | _ \<Rightarrow> Finite 0)"

definition getBoolean :: "CellData \<Rightarrow> bool" where
  "getBoolean cell = (case value cell of BoolV b \<Rightarrow> b | _ \<Rightarrow> False)"

definition getSharedStringIndex :: "CellData \<Rightarrow> int" where
  "getSharedStringIndex cell = (case value cell of IntV i \<Rightarrow> i | _ \<Rightarrow> 0)"

definition isEmpty :: "CellData \<Rightarrow> bool" where
  "isEmpty cell = (value cell = Monostate)"

definition isSharedStringIndex :: "CellData \<Rightarrow> bool" where
  "isSharedStringIndex cell = (case value cell of IntV i \<Rightarrow> True | _ \<Rightarrow> False)"

section \<open>Cell references (CellCoordinate::toReference, CellCoordinate::fromReference)\<close>

text \<open>
  \<open>std::to_string\<close> of an \<open>int\<close>: the decimal digits, most significant first, after a
  minus sign for a negative value.
\<close>

function decimalDigits :: "int \<Rightarrow> string \<Rightarrow> string" where
  "decimalDigits n acc =
     (if n < 10 then char_of (48 + n) # acc
      else decimalDigits (n div 10) (char_of (48 + n mod 10) # acc))"
  by pat_completeness auto
termination
  by (relation "measure (\<lambda>(n, acc). nat n)") auto

declare decimalDigits.simps [simp del]

definition to_string :: "int \<Rightarrow> string" where
  "to_string n = (if n < 0 then CHR ''-'' # decimalDigits (- n) [] else decimalDigits n [])"

text \<open>
  The loop of \<open>toReference\<close> over \<open>col\<close>: decrement, prepend the letter of \<open>col % 26\<close>,
  divide by 26, while \<open>col > 0\<close>.
\<close>

function columnLetters :: "int \<Rightarrow> string \<Rightarrow> string" where
  "columnLetters col result =
     (if col > 0
      then columnLetters ((col - 1) div 26) (char_of (65 + (col - 1) mod 26) # result)
      else result)"
  by pat_completeness auto
termination
  by (relation "measure (\<lambda>(col, result). nat col)") auto

declare columnLetters.simps [simp del]

definition toReference :: "CellCoordinate \<Rightarrow> string" where
  "toReference c =
     (if row c \<le> 0 \<or> column c \<le> 0 then []
      else columnLetters (column c) [] @ to_string (row c))"

text \<open>
  The two loops of \<open>fromReference\<close>, each over the unread rest of \<open>ref\<close>. The letter loop
  can leave through the \<open>return std::nullopt\<close> inside it; both can overflow \<open>int\<close>.
\<close>

fun fromReference_letters :: "int \<Rightarrow> string \<Rightarrow> fault + (int \<times> string) option" where
  "fromReference_letters col [] = Inr (Some (col, []))"
| "fromReference_letters col (x # xs) =
     (if isalpha x
      then (let c = toupper x in
            if code c < 65 \<or> code c > 90 then Inr None
            else if col * 26 + (code c - 65 + 1) > INT_MAX then Inl SignedOverflow
            else fromReference_letters (col * 26 + (code c - 65 + 1)) xs)
      else Inr (Some (col, x # xs)))"

fun fromReference_digits :: "int \<Rightarrow> string \<Rightarrow> fault + (int \<times> string)" where
  "fromReference_digits r [] = Inr (r, [])"
| "fromReference_digits r (x # xs) =
     (if isdigit x
      then (if r * 10 + (code x - 48) > INT_MAX then Inl SignedOverflow
            else fromReference_digits (r * 10 + (code x - 48)) xs)
      else Inr (r, x # xs))"

definition fromReference :: "string \<Rightarrow> fault + CellCoordinate option" where
  "fromReference ref =
     (if ref = [] then Inr None
      else case fromReference_letters 0 ref of
        Inl f \<Rightarrow> Inl f
      | Inr None \<Rightarrow> Inr None
      | Inr (Some (col, rest)) \<Rightarrow>
          if col = 0 \<or> rest = [] then Inr None
          else (case fromReference_digits 0 rest of
                  Inl f \<Rightarrow> Inl f
                | Inr (r, rest') \<Rightarrow>
                    if r = 0 \<or> rest' \<noteq> [] then Inr None
                    else Inr (Some \<lparr>row = r, column = col\<rparr>)))"

section \<open>Sheet stream reader: cell references (sheet_stream_reader.cpp)\<close>

text \<open>
  \<open>parseCellReference\<close> reads a NUL-terminated C string: \<open>*p\<close> past the last character is
  the terminator.
\<close>

definition deref :: "string \<Rightarrow> char" where
  "deref p = (case p of [] \<Rightarrow> NUL | c # cs \<Rightarrow> c)"

fun parseCellReference_letters :: "int \<Rightarrow> string \<Rightarrow> fault + (int \<times> string)" where
  "parseCellReference_letters col [] = Inr (col, [])"
| "parseCellReference_letters col (c # p) =
     (if code c \<ge> 65 \<and> code c \<le> 90
      then (if col * 26 + (code c - 65 + 1) > INT_MAX then Inl SignedOverflow
            else parseCellReference_letters (col * 26 + (code c - 65 + 1)) p)
      else Inr (col, c # p))"

fun parseCellReference_digits :: "int \<Rightarrow> string \<Rightarrow> fault + (int \<times> string)" where
  "parseCellReference_digits r [] = Inr (r, [])"
| "parseCellReference_digits r (c # p) =
     (if code c \<ge> 48 \<and> code c \<le> 57
      then (if r * 10 + (code c - 48) > INT_MAX then Inl SignedOverflow
            else parseCellReference_digits (r * 10 + (code c - 48)) p)
      else Inr (r, c # p))"

text \<open>
  The result is the returned \<open>bool\<close> and the coordinate \<open>out\<close> as the call leaves it
  (unchanged when \<open>false\<close> is returned).
\<close>

definition parseCellReference ::
    "string \<Rightarrow> CellCoordinate \<Rightarrow> fault + (bool \<times> CellCoordinate)" where
  "parseCellReference ref out =
     (if deref ref = NUL then Inr (False, out)
      else case parseCellReference_letters 0 ref of
        Inl f \<Rightarrow> Inl f
      | Inr (col, p) \<Rightarrow>
          if col = 0 then Inr (False, out)
          else if code (deref p) < 49 \<or> code (deref p) > 57 then Inr (False, out)
          else (case parseCellReference_digits 0 p of
                  Inl f \<Rightarrow> Inl f
                | Inr (r, p') \<Rightarrow>
                    if deref p' \<noteq> NUL \<or> r \<le> 0 then Inr (False, out)
                    else Inr (True, \<lparr>row = r, column = col\<rparr>)))"

section \<open>Sheet stream reader: value interpretation (sheet_stream_reader.cpp)\<close>

text \<open>
  \<open>std::from_chars\<close> for \<open>int\<close>, base 10: an optional minus sign and at least one digit;
  the result is the value and the unread rest, or nothing when there is no digit or the
  value does not fit an \<open>int\<close>.
\<close>

fun decimalValue :: "int \<Rightarrow> string \<Rightarrow> int" where
  "decimalValue acc [] = acc"
| "decimalValue acc (c # cs) = decimalValue (acc * 10 + (code c - 48)) cs"

definition from_chars :: "string \<Rightarrow> (int \<times> string) option" where
  "from_chars s =
     (let negative = (s \<noteq> [] \<and> hd s = CHR ''-'');
          body = (if negative then tl s else s);
          digits = takeWhile isdigit body;
          rest = dropWhile isdigit body;
          v = (if negative then - decimalValue 0 digits else decimalValue 0 digits)
      in if digits = [] then None
         else if v < INT_MIN \<or> INT_MAX < v then None
         else Some (v, rest))"

text \<open>
  \<open>convertCellValue\<close> of the sheet reader turns the text of a \<open>v\<close> element into a
  cell value. \<open>std::strtod\<close> is taken as a parameter: it returns the parsed double and the
  number of characters it consumed.
\<close>

definition SheetStreamReader_convertCellValue ::
    "(string \<Rightarrow> double \<times> nat) \<Rightarrow> string \<Rightarrow> CellType \<Rightarrow> CellValue" where
  "SheetStreamReader_convertCellValue strtod valueStr ty =
     (if valueStr = [] then Monostate
      else case ty of
        Boolean \<Rightarrow> BoolV (valueStr = ''1'')
      | Number \<Rightarrow>
          (case strtod valueStr of (parsed, parseEnd) \<Rightarrow>
             if parseEnd = length valueStr then DoubleV parsed else Monostate)
      | SharedString \<Rightarrow>
          (case from_chars valueStr of
             Some (index, rest) \<Rightarrow> if rest = [] then IntV index else Monostate
           | None \<Rightarrow> Monostate)
      | _ \<Rightarrow> StringV valueStr)"

section \<open>Styles registry (StylesRegistry::Impl::isDateTimeStyle)\<close>

text \<open>
  Of the registry only the open flag and the date/time mask, one byte per cell-format
  record, decide \<open>isDateTimeStyle\<close>.
\<close>

record StylesRegistry =
  styles_isOpen :: bool
  m_dateTimeStyleMask :: "nat list"

definition isDateTimeStyle :: "StylesRegistry \<Rightarrow> int \<Rightarrow> bool" where
  "isDateTimeStyle this styleIdx =
     (if \<not> styles_isOpen this \<or> styleIdx < 0 \<or> nat styleIdx \<ge> length (m_dateTimeStyleMask this)
      then False
      else m_dateTimeStyleMask this ! nat styleIdx \<noteq> 0)"

section \<open>Date conversion (DateConverter::convertExcelSerial)\<close>

datatype DateSystem = Date1900 | Date1904

definition EXCEL_EPOCH_1904 :: rat where
  "EXCEL_EPOCH_1904 = 1462"

definition SECONDS_PER_DAY :: rat where
  "SECONDS_PER_DAY = 86400"

definition DAYS_BETWEEN_1899_AND_1970 :: rat where
  "DAYS_BETWEEN_1899_AND_1970 = 25567"

text \<open>A cast from \<open>double\<close> to an integer type truncates towards zero.\<close>

definition to_integer :: "rat \<Rightarrow> int" where
  "to_integer x = (if x < 0 then - \<lfloor>- x\<rfloor> else \<lfloor>x\<rfloor>)"

text \<open>The fields of \<open>std::tm\<close> that the formats below read.\<close>

record tm =
  tm_year :: int
  tm_mon :: int
  tm_mday :: int
  tm_hour :: int
  tm_min :: int
  tm_sec :: int

text \<open>
  \<open>std::gmtime\<close> belongs to the C library; it is modelled by the proleptic Gregorian
  calendar: the day count since 1970-01-01 is turned into year, month and day, and the
  result is a null pointer when the year does not fit the \<open>int\<close> field \<open>tm_year\<close>.
\<close>

definition civil_from_days :: "int \<Rightarrow> int \<times> int \<times> int" where
  "civil_from_days z0 =
     (let z = z0 + 719468;
          era = z div 146097;
          doe = z - era * 146097;
          yoe = (doe - doe div 1460 + doe div 36524 - doe div 146096) div 365;
          doy = doe - (365 * yoe + yoe div 4 - yoe div 100);
          mp = (5 * doy + 2) div 153;
          d = doy - (153 * mp + 2) div 5 + 1;
          m = (if mp < 10 then mp + 3 else mp - 9);
          y = yoe + era * 400 + (if m \<le> 2 then 1 else 0)
      in (y, m, d))"

definition gmtime :: "int \<Rightarrow> tm option" where
  "gmtime t =
     (case civil_from_days (t div 86400) of (y, m, d) \<Rightarrow>
        if y - 1900 < INT_MIN \<or> INT_MAX < y - 1900 then None
        else Some \<lparr>tm_year = y - 1900, tm_mon = m - 1, tm_mday = d,
                   tm_hour = (t mod 86400) div 3600,
                   tm_min = (t mod 3600) div 60,
                   tm_sec = t mod 60\<rparr>)"

text \<open>
  \<open>std::put_time\<close> for the conversions the converter uses: \<open>%Y\<close> is the year in decimal,
  \<open>%m\<close>, \<open>%d\<close>, \<open>%H\<close>, \<open>%M\<close> and \<open>%S\<close> are two digits; any other character is copied.
\<close>

definition pad2 :: "int \<Rightarrow> string" where
  "pad2 n = [char_of (48 + (n div 10) mod 10), char_of (48 + n mod 10)]"

fun put_time :: "tm \<Rightarrow> string \<Rightarrow> string" where
  "put_time t [] = []"
| "put_time t [c] = [c]"
| "put_time t (c # d # fmt) =
     (if c = CHR ''%'' then
        (if d = CHR ''Y'' then to_string (tm_year t + 1900) @ put_time t fmt
         else if d = CHR ''m'' then pad2 (tm_mon t + 1) @ put_time t fmt
         else if d = CHR ''d'' then pad2 (tm_mday t) @ put_time t fmt
         else if d = CHR ''H'' then pad2 (tm_hour t) @ put_time t fmt
         else if d = CHR ''M'' then pad2 (tm_min t) @ put_time t fmt
         else if d = CHR ''S'' then pad2 (tm_sec t) @ put_time t fmt
         else c # d # put_time t fmt)
      else c # put_time t (d # fmt))"

text \<open>
  \<open>convertExcelSerial\<close>. The arithmetic on finite doubles is carried out exactly, on the
  rationals; the literals \<open>0.001\<close> and \<open>0.999\<close> are the rationals of that name. The cast
  of the second count to \<open>int64_t\<close> is undefined outside the range of that type (and for a
  NaN or an infinity), which the model reports as a fault. The round trip through
  \<open>system_clock::from_time_t\<close> and \<open>to_time_t\<close> returns the second count it was given.
\<close>

definition convertExcelSerial :: "double \<Rightarrow> DateSystem \<Rightarrow> fault + string" where
  "convertExcelSerial serialDate dateSystem =
     (case serialDate of
        NaN \<Rightarrow> Inl FloatToIntegerOverflow
      | PosInf \<Rightarrow> Inl FloatToIntegerOverflow
      | NegInf \<Rightarrow> Inr ''1900-01-01''
      | Finite serial \<Rightarrow>
          if serial \<le> 0 then Inr ''1900-01-01''
          else
            (let adjusted0 = (if dateSystem = Date1904 then serial + EXCEL_EPOCH_1904 else serial);
                 adjustedSerial =
                   (if dateSystem = Date1900 \<and> serial \<ge> 60 then adjusted0 - 1 else adjusted0);
                 daysSinceUnixEpoch = adjustedSerial - DAYS_BETWEEN_1899_AND_1970;
                 secondsSinceEpoch = to_integer (daysSinceUnixEpoch * SECONDS_PER_DAY)
             in if secondsSinceEpoch < INT64_MIN \<or> INT64_MAX < secondsSinceEpoch
                then Inl FloatToIntegerOverflow
                else
                  (let fractionalPart = adjustedSerial - of_int \<lfloor>adjustedSerial\<rfloor>;
                       hours = to_integer (fractionalPart * 24);
                       minutes = to_integer ((fractionalPart * 24 - of_int hours) * 60);
                       seconds =
                         to_integer (((fractionalPart * 24 - of_int hours) * 60 - of_int minutes) * 60)
                   in case gmtime secondsSinceEpoch of
                        None \<Rightarrow> Inr ''1900-01-01''
                      | Some t0 \<Rightarrow>
                          (let t = t0\<lparr>tm_hour := hours, tm_min := minutes, tm_sec := seconds\<rparr>;
                               hasDatePart = (fractionalPart < 999 / 1000);
                               hasTimePart = (fractionalPart > 1 / 1000)
                           in if hasDatePart \<and> hasTimePart
                              then Inr (put_time t ''%Y-%m-%dT%H:%M:%S'')
                              else if hasTimePart then Inr (put_time t ''%H:%M:%S'')
                              else Inr (put_time t ''%Y-%m-%d'')))))"

section \<open>Number formatting (DataConverter::formatNumericValue)\<close>

text \<open>
  \<open>oss << std::fixed << std::setprecision(6) << value\<close>: the value rounded to six
  decimals (to nearest, ties to even), written as sign, integer digits, a point and six
  fraction digits.
\<close>

definition round_half_even :: "rat \<Rightarrow> int" where
  "round_half_even x =
     (let n = \<lfloor>x\<rfloor>; r = x - of_int n
      in if r < 1 / 2 then n
         else if r > 1 / 2 then n + 1
         else if even n then n else n + 1)"

definition pad6 :: "int \<Rightarrow> string" where
  "pad6 n =
     [char_of (48 + (n div 100000) mod 10), char_of (48 + (n div 10000) mod 10),
      char_of (48 + (n div 1000) mod 10), char_of (48 + (n div 100) mod 10),
      char_of (48 + (n div 10) mod 10), char_of (48 + n mod 10)]"

definition fixed6 :: "rat \<Rightarrow> string" where
  "fixed6 x =
     (let m = round_half_even (\<bar>x\<bar> * 1000000)
      in (if x < 0 then ''-'' else []) @ to_string (m div 1000000) @ ''.'' @ pad6 (m mod 1000000))"

text \<open>
  The clean-up of the fixed rendering: \<open>erase(find_last_not_of('0') + 1)\<close> drops the
  zeros at the end, then a point left at the end is dropped.
\<close>

definition strip_trailing :: "string \<Rightarrow> string" where
  "strip_trailing result =
     (if CHR ''.'' \<in> set result
      then (let erased = rev (dropWhile (\<lambda>c. c = CHR ''0'') (rev result))
            in if erased \<noteq> [] \<and> last erased = CHR ''.'' then butlast erased else erased)
      else result)"

definition formatNumericValue :: "double \<Rightarrow> string" where
  "formatNumericValue v =
     (case v of
        NaN \<Rightarrow> ''#NUM!''
      | PosInf \<Rightarrow> ''#DIV/0!''
      | NegInf \<Rightarrow> ''-#DIV/0!''
      | Finite x \<Rightarrow>
          if x = of_int \<lfloor>x\<rfloor> \<and> \<bar>x\<bar> < 1000000000000000
          then to_string (to_integer x)
          else strip_trailing (fixed6 x))"

section \<open>Cell conversion (DataConverter::convertCellValue, convertNumericValue)\<close>

definition convertNumericValue ::
    "double \<Rightarrow> int \<Rightarrow> StylesRegistry option \<Rightarrow> DateSystem \<Rightarrow> fault + string" where
  "convertNumericValue v styleIdx styles dateSystem =
     (case styles of
        Some st \<Rightarrow>
          if styleIdx > 0 \<and> isDateTimeStyle st styleIdx
          then convertExcelSerial v dateSystem
          else Inr (formatNumericValue v)
      | None \<Rightarrow> Inr (formatNumericValue v))"

definition formatErrorValue :: "string \<Rightarrow> string" where
  "formatErrorValue errorCode = (if errorCode = [] then ''#N/A'' else errorCode)"

text \<open>
  The shared-strings table enters \<open>convertCellValue\<close> only through \<open>tryGetString\<close>; the
  argument is that lookup, or nothing for a null pointer. The index is converted to
  \<open>size_t\<close>, which wraps a negative \<open>int\<close> around modulo \<open>2^64\<close>.
\<close>

definition DataConverter_convertCellValue ::
    "CellData \<Rightarrow> (nat \<Rightarrow> string option) option \<Rightarrow> StylesRegistry option \<Rightarrow> DateSystem
     \<Rightarrow> fault + string" where
  "DataConverter_convertCellValue cell sharedStrings styles dateSystem =
     (if isEmpty cell then Inr []
      else case type cell of
        Boolean \<Rightarrow> Inr (if getBoolean cell then ''TRUE'' else ''FALSE'')
      | Error \<Rightarrow> Inr (formatErrorValue (getString cell))
      | InlineString \<Rightarrow> Inr (getString cell)
      | String \<Rightarrow> Inr (getString cell)
      | SharedString \<Rightarrow>
          (case sharedStrings of
             Some tryGet \<Rightarrow>
               if isSharedStringIndex cell
               then (case tryGet (nat (getSharedStringIndex cell mod 2 ^ 64)) of
                       Some str \<Rightarrow> Inr str
                     | None \<Rightarrow> Inr [])
               else Inr (getString cell)
           | None \<Rightarrow> Inr (getString cell))
      | Number \<Rightarrow> convertNumericValue (getNumber cell) (styleIndex cell) styles dateSystem
      | Unknown \<Rightarrow> Inr (getString cell))"

section \<open>CSV row collector (CsvRowCollectorImpl::appendEscapedCsvField)\<close>

datatype MergedHandling = NONE | PROPAGATE

text \<open>
  \<open>CsvOptions\<close> is declared in the public header; these are the fields that the
  README documents and the collector reads.
\<close>

record CsvOptions =
  delimiter :: char
  quoteAll :: bool
  includeHiddenRows :: bool
  includeHiddenColumns :: bool
  mergedHandling :: MergedHandling

record CsvRowCollectorImpl =
  m_options :: "CsvOptions option"
  m_delimiter :: char
  m_csvOutput :: string
  m_rowCount :: nat

text \<open>The constructor: the delimiter comes from the options unless it is NUL.\<close>

definition CsvRowCollectorImpl_new :: "CsvOptions option \<Rightarrow> CsvRowCollectorImpl" where
  "CsvRowCollectorImpl_new options =
     \<lparr>m_options = options,
      m_delimiter = (case options of
                       Some opts \<Rightarrow> if delimiter opts \<noteq> NUL then delimiter opts else CHR '',''
                     | None \<Rightarrow> CHR '',''),
      m_csvOutput = [],
      m_rowCount = 0\<rparr>"

text \<open>The loop over the characters of a field that needs quoting.\<close>

fun appendEscapedChars :: "string \<Rightarrow> string \<Rightarrow> string" where
  "appendEscapedChars out [] = out"
| "appendEscapedChars out (ch # field) =
     appendEscapedChars ((if ch = DQUOTE then out @ [DQUOTE] else out) @ [ch]) field"

definition appendEscapedCsvField :: "CsvRowCollectorImpl \<Rightarrow> string \<Rightarrow> CsvRowCollectorImpl" where
  "appendEscapedCsvField this field =
     (let needsQuoting = (m_delimiter this \<in> set field \<or> DQUOTE \<in> set field \<or>
                          LF \<in> set field \<or> CR \<in> set field)
      in if \<not> needsQuoting then this\<lparr>m_csvOutput := m_csvOutput this @ field\<rparr>
         else this\<lparr>m_csvOutput :=
                     appendEscapedChars (m_csvOutput this @ [DQUOTE]) field @ [DQUOTE]\<rparr>)"

section \<open>ZIP reader (zip_reader.cpp)\<close>

datatype XlsxError = XlsxError string

record ZipEntry =
  path :: string
  compressedSize :: nat
  uncompressedSize :: nat
  isEncrypted :: bool

record ZipSecurityLimits =
  maxEntries :: nat
  maxEntrySize :: nat
  maxTotalUncompressed :: nat

text \<open>
  What minizip reports for one entry of the archive: the file name as the C string that
  \<open>unzGetCurrentFileInfo64\<close> leaves in the buffer, the two sizes, the general-purpose
  flag, and the bytes that reading the entry yields. An open archive is the list of its
  entries in directory order.
\<close>

record unz_file_info =
  filename :: string
  compressed_size :: nat
  uncompressed_size :: nat
  flag :: nat
  contents :: string

record ZipReader =
  m_limits :: ZipSecurityLimits
  m_unzFile :: "unz_file_info list option"
  m_isOpen :: bool
  m_entries :: "ZipEntry list"

definition ZipReader_new :: "ZipSecurityLimits \<Rightarrow> ZipReader" where
  "ZipReader_new limits =
     \<lparr>m_limits = limits, m_unzFile = None, m_isOpen = False, m_entries = []\<rparr>"

definition close :: "ZipReader \<Rightarrow> ZipReader" where
  "close this = this\<lparr>m_unzFile := None, m_isOpen := False, m_entries := []\<rparr>"

text \<open>\<open>std::string::find\<close> of a substring, compared with \<open>npos\<close>.\<close>

fun contains :: "string \<Rightarrow> string \<Rightarrow> bool" where
  "contains needle [] = (needle = [])"
| "contains needle (c # cs) =
     (take (length needle) (c # cs) = needle \<or> contains needle cs)"

definition sanitizePath :: "string \<Rightarrow> string" where
  "sanitizePath p =
     dropWhile (\<lambda>c. c = SLASH) (map (\<lambda>c. if c = BACKSLASH then SLASH else c) p)"

definition isPathSuspicious :: "string \<Rightarrow> bool" where
  "isPathSuspicious p =
     (if contains ''..'' p then True
      else if p \<noteq> [] \<and> hd p = SLASH then True
      else if NUL \<in> set p then True
      else if length p > 1024 then True
      else False)"

text \<open>
  What the listing keeps in its cache, in the words of the specification: separators
  normalised to \<open>/\<close>, no leading \<open>/\<close>, no \<open>..\<close>, no NUL, at most 1024 bytes.
\<close>

definition listed_path_ok :: "string \<Rightarrow> bool" where
  "listed_path_ok p =
     (BACKSLASH \<notin> set p \<and> (p = [] \<or> hd p \<noteq> SLASH) \<and> \<not> contains ''..'' p \<and>
      NUL \<notin> set p \<and> length p \<le> 1024)"

text \<open>
  \<open>validateZipSecurity\<close>: the running entry count and total size, checked after each
  entry.
\<close>

fun validateZipSecurity_loop ::
    "ZipSecurityLimits \<Rightarrow> nat \<Rightarrow> nat \<Rightarrow> unz_file_info list \<Rightarrow> XlsxError option" where
  "validateZipSecurity_loop limits totalUncompressed entryCount [] = None"
| "validateZipSecurity_loop limits totalUncompressed entryCount (fileInfo # files) =
     (if entryCount + 1 > maxEntries limits
      then Some (XlsxError ''ZIP file contains too many entries'')
      else if totalUncompressed + uncompressed_size fileInfo > maxTotalUncompressed limits
      then Some (XlsxError ''ZIP file total uncompressed size exceeds limit'')
      else validateZipSecurity_loop limits
             (totalUncompressed + uncompressed_size fileInfo) (entryCount + 1) files)"

text \<open>
  \<open>open\<close>: the argument says what is found at the path. The result is the exception
  thrown, if any, and the reader as the call leaves it.
\<close>

datatype file_at_path = NoSuchFile | NotAnArchive | Archive "unz_file_info list"

definition open_zip ::
    "ZipReader \<Rightarrow> file_at_path \<Rightarrow> XlsxError option \<times> ZipReader" where
  "open_zip this0 found =
     (let this = (if m_unzFile this0 \<noteq> None then close this0 else this0)
      in case found of
           NoSuchFile \<Rightarrow> (Some (XlsxError ''ZIP file does not exist''), this)
         | NotAnArchive \<Rightarrow> (Some (XlsxError ''Failed to open ZIP file''), this)
         | Archive files \<Rightarrow>
             (case validateZipSecurity_loop (m_limits this) 0 0 files of
                Some e \<Rightarrow> (Some e, this\<lparr>m_unzFile := Some files\<rparr>)
              | None \<Rightarrow> (None, this\<lparr>m_unzFile := Some files, m_isOpen := True\<rparr>)))"

text \<open>
  The loop of \<open>listEntries\<close> over the archive. An exception leaves the entries pushed
  so far in \<open>m_entries\<close>, so the loop returns them with the exception.
\<close>

fun listEntries_loop ::
    "ZipSecurityLimits \<Rightarrow> unz_file_info list \<Rightarrow> ZipEntry list \<Rightarrow> XlsxError option \<times> ZipEntry list" where
  "listEntries_loop limits [] entries = (None, entries)"
| "listEntries_loop limits (fileInfo # files) entries =
     (let entry = \<lparr>path = sanitizePath (filename fileInfo),
                   compressedSize = compressed_size fileInfo,
                   uncompressedSize = uncompressed_size fileInfo,
                   isEncrypted = odd (flag fileInfo)\<rparr>
      in if path entry = [] \<or> isPathSuspicious (path entry)
         then listEntries_loop limits files entries
         else if uncompressedSize entry > maxEntrySize limits
         then (Some (XlsxError (''ZIP entry exceeds size limit: '' @ path entry)), entries)
         else if isEncrypted entry
         then (Some (XlsxError (''Encrypted ZIP entries are not supported: '' @ path entry)),
               entries)
         else listEntries_loop limits files (entries @ [entry]))"

definition listEntries :: "ZipReader \<Rightarrow> (XlsxError + ZipEntry list) \<times> ZipReader" where
  "listEntries this =
     (if \<not> m_isOpen this then (Inl (XlsxError ''ZIP file is not open''), this)
      else if m_entries this \<noteq> [] then (Inr (m_entries this), this)
      else case m_unzFile this of
             None \<Rightarrow> (Inl (XlsxError ''Failed to navigate to first ZIP entry''), this)
           | Some files \<Rightarrow>
               (case listEntries_loop (m_limits this) files (m_entries this) of
                  (Some e, entries) \<Rightarrow> (Inl e, this\<lparr>m_entries := entries\<rparr>)
                | (None, entries) \<Rightarrow>
                    if length entries > maxEntries (m_limits this)
                    then (Inl (XlsxError ''ZIP file contains too many entries''),
                          this\<lparr>m_entries := entries\<rparr>)
                    else (Inr entries, this\<lparr>m_entries := entries\<rparr>)))"

definition hasEntry :: "ZipReader \<Rightarrow> string \<Rightarrow> (XlsxError + bool) \<times> ZipReader" where
  "hasEntry this p =
     (if \<not> m_isOpen this then (Inl (XlsxError ''ZIP file is not open''), this)
      else case listEntries this of
             (Inl e, this') \<Rightarrow> (Inl e, this')
           | (Inr entries, this') \<Rightarrow> (Inr (p \<in> set (map path entries)), this'))"

definition readEntry :: "ZipReader \<Rightarrow> string \<Rightarrow> XlsxError + string" where
  "readEntry this p =
     (if \<not> m_isOpen this then Inl (XlsxError ''ZIP file is not open'')
      else if isPathSuspicious p then Inl (XlsxError (''Suspicious path rejected: '' @ p))
      else case m_unzFile this of
             None \<Rightarrow> Inl (XlsxError (''ZIP entry not found: '' @ p))
           | Some files \<Rightarrow>
               (case find (\<lambda>fileInfo. filename fileInfo = p) files of
                  None \<Rightarrow> Inl (XlsxError (''ZIP entry not found: '' @ p))
                | Some fileInfo \<Rightarrow>
                    if uncompressed_size fileInfo > maxEntrySize (m_limits this)
                    then Inl (XlsxError (''ZIP entry exceeds size limit: '' @ p))
                    else if odd (flag fileInfo)
                    then Inl (XlsxError (''Encrypted ZIP entries are not supported: '' @ p))
                    else Inr (contents fileInfo)))"

text \<open>
  The states a reader can be in: a new reader, and whatever \<open>open\<close>, \<open>close\<close> and
  \<open>listEntries\<close> (which \<open>hasEntry\<close> calls) leave behind. \<open>readEntry\<close> changes nothing.
\<close>

inductive reachable :: "ZipReader \<Rightarrow> bool" where
  reachable_new: "reachable (ZipReader_new limits)"
| reachable_open: "reachable this \<Longrightarrow> reachable (snd (open_zip this found))"
| reachable_close: "reachable this \<Longrightarrow> reachable (close this)"
| reachable_list: "reachable this \<Longrightarrow> reachable (snd (listEntries this))"

section \<open>Shared strings (SharedStringsProvider::Impl)\<close>

datatype SharedStringsMode = Auto | InMemory | External

record SharedStringsConfig =
  mode :: SharedStringsMode
  memoryThreshold :: nat
  maxStringLength :: nat
  flattenRichText :: bool

text \<open>
  The temporary file behind \<open>m_diskFile\<close>: not opened yet, open with the bytes written
  so far, or in a failed state (opening a stream that is already open fails, and a failed
  stream neither writes nor reads).
\<close>

datatype fstream = NotOpened | Opened string | Failed

record SharedStringsProvider =
  m_config :: SharedStringsConfig
  ss_isOpen :: bool
  m_activeMode :: SharedStringsMode
  m_stringCount :: nat
  m_memoryUsage :: nat
  m_arena :: string
  m_offsets :: "nat list"
  m_isUsingDisk :: bool
  m_diskFile :: fstream
  m_diskOffsets :: "int list"

definition SharedStringsProvider_new :: "SharedStringsConfig \<Rightarrow> SharedStringsProvider" where
  "SharedStringsProvider_new config =
     \<lparr>m_config = config, ss_isOpen = False, m_activeMode = mode config, m_stringCount = 0,
      m_memoryUsage = 0, m_arena = [], m_offsets = [], m_isUsingDisk = False,
      m_diskFile = NotOpened, m_diskOffsets = []\<rparr>"

definition SharedStrings_close :: "SharedStringsProvider \<Rightarrow> SharedStringsProvider" where
  "SharedStrings_close this =
     this\<lparr>ss_isOpen := False, m_arena := [], m_offsets := [], m_stringCount := 0,
          m_memoryUsage := 0, m_isUsingDisk := False, m_activeMode := mode (m_config this)\<rparr>"

text \<open>A \<open>uint32_t\<close> in memory, least significant byte first, and back.\<close>

definition uint32_bytes :: "nat \<Rightarrow> string" where
  "uint32_bytes n =
     [char_of n, char_of (n div 256), char_of (n div 65536), char_of (n div 16777216)]"

definition uint32_of_bytes :: "string \<Rightarrow> nat" where
  "uint32_of_bytes bs =
     of_char (bs ! 0) + 256 * of_char (bs ! 1) + 65536 * of_char (bs ! 2)
       + 16777216 * of_char (bs ! 3)"

text \<open>\<open>vector::resize(index + 1)\<close> when \<open>index >= size()\<close>: new elements are zero.\<close>

definition resize_for :: "nat \<Rightarrow> 'a \<Rightarrow> 'a list \<Rightarrow> 'a list" where
  "resize_for index zero xs =
     (if index \<ge> length xs then xs @ replicate (index + 1 - length xs) zero else xs)"

definition storeStringToArena :: "SharedStringsProvider \<Rightarrow> nat \<Rightarrow> string \<Rightarrow> SharedStringsProvider" where
  "storeStringToArena this index v =
     (let needed = length v + 1;
          offset = length (m_arena this) mod 2 ^ 32
      in this\<lparr>m_offsets := (resize_for index 0 (m_offsets this))[index := offset],
              m_arena := m_arena this @ v @ [NUL],
              m_memoryUsage := m_memoryUsage this + needed\<rparr>)"

definition storeStringToDisk :: "SharedStringsProvider \<Rightarrow> nat \<Rightarrow> string \<Rightarrow> SharedStringsProvider" where
  "storeStringToDisk this index v =
     (let len = length v mod 2 ^ 32
      in case m_diskFile this of
           Opened bytes \<Rightarrow>
             this\<lparr>m_diskFile := Opened (bytes @ uint32_bytes len @ take len v),
                  m_diskOffsets :=
                    (resize_for index 0 (m_diskOffsets this))[index := int (length bytes)]\<rparr>
         | _ \<Rightarrow>
             this\<lparr>m_diskOffsets :=
                    (resize_for index 0 (m_diskOffsets this))[index := - 1 - (4 + int len)]\<rparr>)"

definition storeString :: "SharedStringsProvider \<Rightarrow> nat \<Rightarrow> string \<Rightarrow> SharedStringsProvider" where
  "storeString this index v =
     (if m_isUsingDisk this then storeStringToDisk this index v
      else storeStringToArena this index v)"

definition getStringFromArena :: "SharedStringsProvider \<Rightarrow> nat \<Rightarrow> string option" where
  "getStringFromArena this index =
     (if index \<ge> length (m_offsets this) then None
      else (let offset = m_offsets this ! index
            in if offset \<ge> length (m_arena this) then None
               else Some (takeWhile (\<lambda>c. c \<noteq> NUL) (drop offset (m_arena this)))))"

definition readStringFromDisk :: "SharedStringsProvider \<Rightarrow> nat \<Rightarrow> string option" where
  "readStringFromDisk this index =
     (if \<not> m_isUsingDisk this \<or> index \<ge> length (m_diskOffsets this) then None
      else case m_diskFile this of
             Opened bytes \<Rightarrow>
               (let pos = m_diskOffsets this ! index
                in if pos < 0 \<or> int (length bytes) < pos + 4 then None
                   else (let len = uint32_of_bytes (take 4 (drop (nat pos) bytes));
                             body = drop (nat pos + 4) bytes
                         in if length body < len then None else Some (take len body)))
           | _ \<Rightarrow> None)"

definition tryGetString :: "SharedStringsProvider \<Rightarrow> nat \<Rightarrow> string option" where
  "tryGetString this index =
     (if \<not> ss_isOpen this \<or> index \<ge> m_stringCount this then None
      else if m_stringCount this = 0 then None
      else if m_isUsingDisk this then readStringFromDisk this index
      else getStringFromArena this index)"

definition SharedStrings_getString :: "SharedStringsProvider \<Rightarrow> nat \<Rightarrow> XlsxError + string" where
  "SharedStrings_getString this index =
     (case tryGetString this index of
        None \<Rightarrow>
          Inl (XlsxError (''Shared string index '' @ to_string (int index) @ '' out of range''))
      | Some result \<Rightarrow> Inr result)"

definition getStringCount :: "SharedStringsProvider \<Rightarrow> nat" where
  "getStringCount this = m_stringCount this"

text \<open>
  \<open>initializeDiskStorage\<close> opens the temporary file, truncated. The stream of a provider
  that has used the disk before is still open, and opening it again fails.
\<close>

definition initializeDiskStorage :: "SharedStringsProvider \<Rightarrow> SharedStringsProvider" where
  "initializeDiskStorage this =
     this\<lparr>m_isUsingDisk := True,
          m_diskFile := (case m_diskFile this of NotOpened \<Rightarrow> Opened [] | _ \<Rightarrow> Failed)\<rparr>"

definition decideStorageMode :: "SharedStringsProvider \<Rightarrow> nat \<Rightarrow> SharedStringsProvider" where
  "decideStorageMode this estimatedSize =
     (case mode (m_config this) of
        InMemory \<Rightarrow> this\<lparr>m_activeMode := InMemory, m_isUsingDisk := False\<rparr>
      | External \<Rightarrow> initializeDiskStorage (this\<lparr>m_activeMode := External\<rparr>)
      | Auto \<Rightarrow>
          if estimatedSize > memoryThreshold (m_config this)
          then initializeDiskStorage (this\<lparr>m_activeMode := External\<rparr>)
          else this\<lparr>m_activeMode := InMemory, m_isUsingDisk := False\<rparr>)"

text \<open>
  The XML of \<open>sharedStrings.xml\<close> enters as the sequence of its \<open>si\<close> items, each the
  sequence of the texts that \<open>parseStringItem\<close> appends for it, in document order. Each
  text comes from libxml2 as a C string, so it ends at its first NUL. \<open>parseStringItem\<close>
  concatenates the texts and cuts the result at the configured length.
\<close>

definition c_str :: "string \<Rightarrow> string" where
  "c_str s = takeWhile (\<lambda>c. c \<noteq> NUL) s"

definition parseStringItem :: "SharedStringsConfig \<Rightarrow> string list \<Rightarrow> string" where
  "parseStringItem config texts =
     (let resultStr = concat (map c_str texts)
      in if length resultStr > maxStringLength config
         then take (maxStringLength config) resultStr
         else resultStr)"

fun parseStrings_loop ::
    "SharedStringsProvider \<Rightarrow> nat \<Rightarrow> string list list \<Rightarrow> SharedStringsProvider \<times> nat" where
  "parseStrings_loop this currentIndex [] = (this, currentIndex)"
| "parseStrings_loop this currentIndex (si # items) =
     parseStrings_loop
       (storeString this currentIndex (parseStringItem (m_config this) si))
       (currentIndex + 1) items"

definition parseStrings :: "SharedStringsProvider \<Rightarrow> string list list \<Rightarrow> SharedStringsProvider" where
  "parseStrings this items =
     (case parseStrings_loop this 0 items of
        (this', currentIndex) \<Rightarrow> this'\<lparr>m_stringCount := currentIndex\<rparr>)"

text \<open>
  \<open>parseWithReader\<close>: the first pass estimates 50 bytes for each \<open>si\<close> element it meets
  (\<open>siElements\<close> of them) and decides the storage mode; the second pass stores the
  strings of the items it visits. The count that the first pass derives is overwritten by
  the second; before that it only sizes a reservation. Memory allocation and the creation
  of the temporary file are taken to succeed.
\<close>

definition parseWithReader ::
    "SharedStringsProvider \<Rightarrow> nat \<Rightarrow> string list list \<Rightarrow> SharedStringsProvider" where
  "parseWithReader this siElements items =
     parseStrings (decideStorageMode (this\<lparr>m_stringCount := 0\<rparr>) (50 * siElements)) items"

text \<open>
  What \<open>parse\<close> sees of the package: whether it is open, and the part
  \<open>xl/sharedStrings.xml\<close>: absent from the listing, listed but failing to read, or read
  as the number of \<open>si\<close> elements the first pass counts and the items the second pass
  visits.
\<close>

datatype shared_strings_part = Absent | Unreadable XlsxError | Present nat "string list list"

record OpcPackage =
  pkg_isOpen :: bool
  sharedStringsPart :: shared_strings_part

definition SharedStrings_parse ::
    "SharedStringsProvider \<Rightarrow> OpcPackage \<Rightarrow> XlsxError option \<times> SharedStringsProvider" where
  "SharedStrings_parse this0 package =
     (let this = (if ss_isOpen this0 then SharedStrings_close this0 else this0)
      in if \<not> pkg_isOpen package then (Some (XlsxError ''OPC package is not open''), this)
         else case sharedStringsPart package of
                Absent \<Rightarrow> (None, this\<lparr>ss_isOpen := True, m_stringCount := 0\<rparr>)
              | Unreadable e \<Rightarrow> (Some e, this)
              | Present siElements items \<Rightarrow>
                  (None, (parseWithReader this siElements items)\<lparr>ss_isOpen := True\<rparr>))"

section \<open>Sheet stream reader: cell attributes (SheetStreamReader::Impl::parseCell)\<close>

text \<open>\<open>parseInt\<close>: \<open>std::from_chars\<close> over the whole C string.\<close>

definition parseInt :: "string \<Rightarrow> int option" where
  "parseInt s =
     (if deref s = NUL then None
      else case from_chars (c_str s) of
             Some (v, rest) \<Rightarrow> if rest = [] then Some v else None
           | None \<Rightarrow> None)"

text \<open>
  The attribute loop of \<open>parseCell\<close>, one step for each attribute (name and value). The
  state is the cell under construction and \<open>hasTypeAttribute\<close>. The \<open>bool\<close> that
  \<open>parseCellReference\<close> returns is discarded.
\<close>

definition parseCell_attribute ::
    "CellData \<times> bool \<Rightarrow> string \<times> string \<Rightarrow> fault + (CellData \<times> bool)" where
  "parseCell_attribute st attr =
     (case st of (cell, hasTypeAttribute) \<Rightarrow>
      case attr of (attrName, attrValue) \<Rightarrow>
        if c_str attrName = ''r'' then
          (case parseCellReference attrValue (coordinate cell) of
             Inl f \<Rightarrow> Inl f
           | Inr (ok, out) \<Rightarrow> Inr (cell\<lparr>coordinate := out\<rparr>, hasTypeAttribute))
        else if c_str attrName = ''t'' then
          Inr (cell\<lparr>type :=
                 (if c_str attrValue = ''b'' then Boolean
                  else if c_str attrValue = ''e'' then Error
                  else if c_str attrValue = ''n'' then Number
                  else if c_str attrValue = ''s'' then SharedString
                  else if c_str attrValue = ''str'' then String
                  else if c_str attrValue = ''inlineStr'' then InlineString
                  else Unknown)\<rparr>, True)
        else if c_str attrName = ''s'' then
          (case parseInt attrValue of
             Some parsedStyle \<Rightarrow>
               if parsedStyle \<ge> 0 then Inr (cell\<lparr>styleIndex := parsedStyle\<rparr>, hasTypeAttribute)
               else Inr (cell, hasTypeAttribute)
           | None \<Rightarrow> Inr (cell, hasTypeAttribute))
        else Inr (cell, hasTypeAttribute))"

fun parseCell_attributes ::
    "CellData \<times> bool \<Rightarrow> (string \<times> string) list \<Rightarrow> fault + (CellData \<times> bool)" where
  "parseCell_attributes st [] = Inr st"
| "parseCell_attributes st (attr # attrs) =
     (case parseCell_attribute st attr of
        Inl f \<Rightarrow> Inl f
      | Inr st' \<Rightarrow> parseCell_attributes st' attrs)"

text \<open>
  The head of \<open>parseCell\<close>, up to the point where the children of the element are read:
  the attributes are applied to a default-constructed cell, and a cell without a \<open>t\<close>
  attribute is a number. The cell is returned in every case; there is no error result.
\<close>

definition parseCell_head :: "CellData \<Rightarrow> (string \<times> string) list \<Rightarrow> fault + CellData" where
  "parseCell_head cell0 attrs =
     (case parseCell_attributes (cell0, False) attrs of
        Inl f \<Rightarrow> Inl f
      | Inr (cell, hasTypeAttribute) \<Rightarrow>
          Inr (if \<not> hasTypeAttribute then cell\<lparr>type := Number\<rparr> else cell))"

section \<open>Theorems\<close>

subsection \<open>Cell references\<close>

text \<open>
  The loops of the two parsers undo the loops of \<open>toReference\<close>: reading the letters
  of a column restores the column, reading the digits of a row restores the row, and no
  intermediate value exceeds the final one.
\<close>

lemma code_char_of: "0 \<le> n \<Longrightarrow> n < 256 \<Longrightarrow> code (char_of n) = n"
  by (simp add: code_def)

lemma columnLetters_append: "columnLetters c r = columnLetters c [] @ r"
proof (induction "nat c" arbitrary: c r rule: less_induct)
  case less
  show ?case
  proof (cases "c > 0")
    case True
    let ?c = "(c - 1) div 26" and ?ch = "char_of (65 + (c - 1) mod 26) :: char"
    have lt: "nat ?c < nat c" using True by auto
    have "columnLetters c r = columnLetters ?c (?ch # r)"
      using True by (simp add: columnLetters.simps [of c])
    also have "\<dots> = columnLetters ?c [] @ (?ch # r)" using less [OF lt] .
    also have "\<dots> = (columnLetters ?c [] @ [?ch]) @ r" by simp
    also have "columnLetters ?c [] @ [?ch] = columnLetters ?c [?ch]"
      using less [OF lt, of "[?ch]"] by simp
    also have "columnLetters ?c [?ch] = columnLetters c []"
      using True by (simp add: columnLetters.simps [of c])
    finally show ?thesis .
  next
    case False
    then show ?thesis by (simp add: columnLetters.simps)
  qed
qed

lemma decimalDigits_append: "decimalDigits n r = decimalDigits n [] @ r"
proof (induction "nat n" arbitrary: n r rule: less_induct)
  case less
  show ?case
  proof (cases "n < 10")
    case True
    then show ?thesis by (simp add: decimalDigits.simps)
  next
    case False
    let ?n = "n div 10" and ?ch = "char_of (48 + n mod 10) :: char"
    have lt: "nat ?n < nat n" using False by auto
    have "decimalDigits n r = decimalDigits ?n (?ch # r)"
      using False by (simp add: decimalDigits.simps [of n])
    also have "\<dots> = decimalDigits ?n [] @ (?ch # r)" using less [OF lt] .
    also have "\<dots> = (decimalDigits ?n [] @ [?ch]) @ r" by simp
    also have "decimalDigits ?n [] @ [?ch] = decimalDigits ?n [?ch]"
      using less [OF lt, of "[?ch]"] by simp
    also have "decimalDigits ?n [?ch] = decimalDigits n []"
      using False by (simp add: decimalDigits.simps [of n])
    finally show ?thesis .
  qed
qed

lemma fromReference_letters_columnLetters:
  "0 \<le> c \<Longrightarrow> c \<le> INT_MAX \<Longrightarrow>
   fromReference_letters 0 (columnLetters c r) = fromReference_letters c r"
proof (induction "nat c" arbitrary: c r rule: less_induct)
  case less
  show ?case
  proof (cases "c > 0")
    case True
    let ?c = "(c - 1) div 26" and ?d = "(c - 1) mod 26"
    let ?ch = "char_of (65 + ?d) :: char"
    have lt: "nat ?c < nat c" using True by auto
    have d: "\<not> ?d < 0" "?d \<le> 25" using pos_mod_bound [of 26 "c - 1"] by auto
    have cc: "code ?ch = 65 + ?d" using d by (intro code_char_of) auto
    have c0: "0 \<le> ?c" using True by auto
    have cle: "?c \<le> INT_MAX" using True less.prems by (auto simp: INT_MAX_def)
    have recomp: "?c * 26 + (code ?ch - 65 + 1) = c" using cc by (simp add: algebra_simps)
    have al: "isalpha ?ch" using cc d by (simp add: isalpha_def isupper_def)
    have up: "toupper ?ch = ?ch" using cc d by (simp add: toupper_def islower_def)
    have "fromReference_letters 0 (columnLetters c r) = fromReference_letters 0 (columnLetters ?c (?ch # r))"
      using True by (simp add: columnLetters.simps [of c])
    also have "\<dots> = fromReference_letters ?c (?ch # r)"
      using less.hyps [OF lt c0 cle] .
    also have "\<dots> = fromReference_letters c r"
      using al up cc d recomp less.prems by (simp add: Let_def)
    finally show ?thesis .
  next
    case False
    then have "c = 0" using less.prems by simp
    then show ?thesis by (simp add: columnLetters.simps)
  qed
qed

lemma parseCellReference_letters_columnLetters:
  "0 \<le> c \<Longrightarrow> c \<le> INT_MAX \<Longrightarrow>
   parseCellReference_letters 0 (columnLetters c r) = parseCellReference_letters c r"
proof (induction "nat c" arbitrary: c r rule: less_induct)
  case less
  show ?case
  proof (cases "c > 0")
    case True
    let ?c = "(c - 1) div 26" and ?d = "(c - 1) mod 26"
    let ?ch = "char_of (65 + ?d) :: char"
    have lt: "nat ?c < nat c" using True by auto
    have d: "\<not> ?d < 0" "?d \<le> 25" using pos_mod_bound [of 26 "c - 1"] by auto
    have cc: "code ?ch = 65 + ?d" using d by (intro code_char_of) auto
    have c0: "0 \<le> ?c" using True by auto
    have cle: "?c \<le> INT_MAX" using True less.prems by (auto simp: INT_MAX_def)
    have recomp: "?c * 26 + (code ?ch - 65 + 1) = c" using cc by (simp add: algebra_simps)
    have "parseCellReference_letters 0 (columnLetters c r) = parseCellReference_letters 0 (columnLetters ?c (?ch # r))"
      using True by (simp add: columnLetters.simps [of c])
    also have "\<dots> = parseCellReference_letters ?c (?ch # r)"
      using less.hyps [OF lt c0 cle] .
    also have "\<dots> = parseCellReference_letters c r"
      using cc d recomp less.prems by simp
    finally show ?thesis .
  next
    case False
    then have "c = 0" using less.prems by simp
    then show ?thesis by (simp add: columnLetters.simps)
  qed
qed


lemma fromReference_digits_decimalDigits:
  "0 \<le> n \<Longrightarrow> n \<le> INT_MAX \<Longrightarrow>
   fromReference_digits 0 (decimalDigits n r) = fromReference_digits n r"
proof (induction "nat n" arbitrary: n r rule: less_induct)
  case less
  show ?case
  proof (cases "n < 10")
    case True
    have cc: "code (char_of (48 + n)) = 48 + n" using True less.prems by (intro code_char_of) auto
    show ?thesis using True less.prems cc
      by (simp add: decimalDigits.simps [of n] isdigit_def)
  next
    case False
    let ?n = "n div 10" and ?d = "n mod 10"
    let ?ch = "char_of (48 + ?d) :: char"
    have lt: "nat ?n < nat n" using False by auto
    have d: "\<not> ?d < 0" "?d \<le> 9" using pos_mod_bound [of 10 n] by auto
    have cc: "code ?ch = 48 + ?d" using d by (intro code_char_of) auto
    have n0: "0 \<le> ?n" using False by auto
    have nle: "?n \<le> INT_MAX" using False less.prems by (auto simp: INT_MAX_def)
    have recomp: "?n * 10 + (code ?ch - 48) = n" using cc by (simp add: algebra_simps)
    have "fromReference_digits 0 (decimalDigits n r) = fromReference_digits 0 (decimalDigits ?n (?ch # r))"
      using False by (simp add: decimalDigits.simps [of n])
    also have "\<dots> = fromReference_digits ?n (?ch # r)"
      using less.hyps [OF lt n0 nle] .
    also have "\<dots> = fromReference_digits n r"
      using cc d recomp less.prems by (simp add: isdigit_def)
    finally show ?thesis .
  qed
qed

lemma parseCellReference_digits_decimalDigits:
  "0 \<le> n \<Longrightarrow> n \<le> INT_MAX \<Longrightarrow>
   parseCellReference_digits 0 (decimalDigits n r) = parseCellReference_digits n r"
proof (induction "nat n" arbitrary: n r rule: less_induct)
  case less
  show ?case
  proof (cases "n < 10")
    case True
    have cc: "code (char_of (48 + n)) = 48 + n" using True less.prems by (intro code_char_of) auto
    show ?thesis using True less.prems cc
      by (simp add: decimalDigits.simps [of n])
  next
    case False
    let ?n = "n div 10" and ?d = "n mod 10"
    let ?ch = "char_of (48 + ?d) :: char"
    have lt: "nat ?n < nat n" using False by auto
    have d: "\<not> ?d < 0" "?d \<le> 9" using pos_mod_bound [of 10 n] by auto
    have cc: "code ?ch = 48 + ?d" using d by (intro code_char_of) auto
    have n0: "0 \<le> ?n" using False by auto
    have nle: "?n \<le> INT_MAX" using False less.prems by (auto simp: INT_MAX_def)
    have recomp: "?n * 10 + (code ?ch - 48) = n" using cc by (simp add: algebra_simps)
    have "parseCellReference_digits 0 (decimalDigits n r) = parseCellReference_digits 0 (decimalDigits ?n (?ch # r))"
      using False by (simp add: decimalDigits.simps [of n])
    also have "\<dots> = parseCellReference_digits ?n (?ch # r)"
      using less.hyps [OF lt n0 nle] .
    also have "\<dots> = parseCellReference_digits n r"
      using cc d recomp less.prems by simp
    finally show ?thesis .
  qed
qed

lemma decimalDigits_head:
  "1 \<le> n \<Longrightarrow> \<exists>(d::int) rest. decimalDigits n r = char_of (48 + d) # rest \<and> 1 \<le> d \<and> d \<le> 9"
proof (induction "nat n" arbitrary: n r rule: less_induct)
  case less
  show ?case
  proof (cases "n < 10")
    case True
    have "decimalDigits n r = char_of (48 + n) # r"
      using True by (simp add: decimalDigits.simps [of n])
    then have "decimalDigits n r = char_of (48 + n) # r \<and> 1 \<le> n \<and> n \<le> 9"
      using True less.prems by simp
    then show ?thesis by blast
  next
    case False
    have lt: "nat (n div 10) < nat n" using False by auto
    have ge: "1 \<le> n div 10" using False by auto
    show ?thesis
      using less.hyps [OF lt ge, of "char_of (48 + n mod 10) # r"] False
      by (simp add: decimalDigits.simps [of n])
  qed
qed

lemma columnLetters_head:
  "1 \<le> c \<Longrightarrow> \<exists>(d::int) rest. columnLetters c r = char_of (65 + d) # rest \<and> 0 \<le> d \<and> d \<le> 25"
proof (induction "nat c" arbitrary: c r rule: less_induct)
  case less
  let ?c = "(c - 1) div 26" and ?d = "(c - 1) mod 26"
  have d: "0 \<le> ?d" "?d \<le> 25" using pos_mod_bound [of 26 "c - 1"] by auto
  have step: "columnLetters c r = columnLetters ?c (char_of (65 + ?d) # r)"
    using less.prems by (simp add: columnLetters.simps [of c])
  show ?case
  proof (cases "1 \<le> ?c")
    case True
    have lt: "nat ?c < nat c" using less.prems by auto
    show ?thesis
      using less.hyps [OF lt True, of "char_of (65 + ?d) # r"] step by simp
  next
    case False
    then have "columnLetters ?c (char_of (65 + ?d) # r) = char_of (65 + ?d) # r"
      by (simp add: columnLetters.simps [of ?c])
    then have "columnLetters c r = char_of (65 + ?d) # r \<and> 0 \<le> ?d \<and> ?d \<le> 25"
      using step d by simp
    then show ?thesis by blast
  qed
qed

lemma fromReference_toReference:
  assumes r: "1 \<le> r" "r \<le> INT_MAX" and c: "1 \<le> c" "c \<le> INT_MAX"
  shows "fromReference (toReference \<lparr>row = r, column = c\<rparr>) = Inr (Some \<lparr>row = r, column = c\<rparr>)"
proof -
  obtain d :: int and rest where ds: "decimalDigits r [] = char_of (48 + d) # rest" and d: "1 \<le> d" "d \<le> 9"
    using decimalDigits_head [OF r(1), of "[]"] by blast
  have cd: "code (char_of (48 + d)) = 48 + d" using d by (intro code_char_of) auto
  have notalpha: "\<not> isalpha (char_of (48 + d))"
    using cd d by (simp add: isalpha_def isupper_def islower_def)
  have ref: "toReference \<lparr>row = r, column = c\<rparr> = columnLetters c (decimalDigits r [])"
    using r c columnLetters_append [of c "decimalDigits r []"]
    by (simp add: toReference_def to_string_def)
  have ne: "columnLetters c (decimalDigits r []) \<noteq> []"
    using columnLetters_append [of c "decimalDigits r []"] ds by simp
  have letters: "fromReference_letters 0 (columnLetters c (decimalDigits r [])) =
      Inr (Some (c, decimalDigits r []))"
    using fromReference_letters_columnLetters [of c "decimalDigits r []"] c ds notalpha by simp
  have digits: "fromReference_digits 0 (decimalDigits r []) = Inr (r, [])"
    using fromReference_digits_decimalDigits [of r "[]"] r by simp
  show ?thesis
    unfolding ref using ne letters digits r c ds by (simp add: fromReference_def)
qed

lemma parseCellReference_toReference:
  assumes r: "1 \<le> r" "r \<le> INT_MAX" and c: "1 \<le> c" "c \<le> INT_MAX"
  shows "parseCellReference (toReference \<lparr>row = r, column = c\<rparr>) out = Inr (True, \<lparr>row = r, column = c\<rparr>)"
proof -
  obtain d :: int and rest where ds: "decimalDigits r [] = char_of (48 + d) # rest" and d: "1 \<le> d" "d \<le> 9"
    using decimalDigits_head [OF r(1), of "[]"] by blast
  have cd: "code (char_of (48 + d)) = 48 + d" using d by (intro code_char_of) auto
  have ref: "toReference \<lparr>row = r, column = c\<rparr> = columnLetters c (decimalDigits r [])"
    using r c columnLetters_append [of c "decimalDigits r []"]
    by (simp add: toReference_def to_string_def)
  have ne: "columnLetters c (decimalDigits r []) \<noteq> []"
    using columnLetters_append [of c "decimalDigits r []"] ds by simp
  have letters: "parseCellReference_letters 0 (columnLetters c (decimalDigits r [])) =
      Inr (c, decimalDigits r [])"
    using parseCellReference_letters_columnLetters [of c "decimalDigits r []"] c ds cd d by simp
  have digits: "parseCellReference_digits 0 (decimalDigits r []) = Inr (r, [])"
    using parseCellReference_digits_decimalDigits [of r "[]"] r by simp
  have first: "code (deref (decimalDigits r [])) = 48 + d"
    using ds cd by (simp add: deref_def)
  have nonempty: "deref (columnLetters c (decimalDigits r [])) \<noteq> NUL"
  proof -
    obtain e :: int and rest' where h: "columnLetters c (decimalDigits r []) = char_of (65 + e) # rest'"
      and e: "0 \<le> e" "e \<le> 25"
      using columnLetters_head [OF c(1), of "decimalDigits r []"] by blast
    have "code (char_of (65 + e)) = 65 + e" using e by (intro code_char_of) auto
    then have "code (deref (columnLetters c (decimalDigits r []))) = 65 + e"
      using h by (simp add: deref_def)
    then show ?thesis using e by (auto simp: NUL_def code_def)
  qed
  show ?thesis
    unfolding ref parseCellReference_def using nonempty letters digits first r c d
    by (simp add: deref_def NUL_def)
qed

lemma listed_references:
  "fromReference ''A1'' = Inr (Some \<lparr>row = 1, column = 1\<rparr>)"
  "toReference \<lparr>row = 1, column = 1\<rparr> = ''A1''"
  "fromReference ''Z9'' = Inr (Some \<lparr>row = 9, column = 26\<rparr>)"
  "toReference \<lparr>row = 9, column = 26\<rparr> = ''Z9''"
  "fromReference ''AA1'' = Inr (Some \<lparr>row = 1, column = 27\<rparr>)"
  "toReference \<lparr>row = 1, column = 27\<rparr> = ''AA1''"
  "fromReference ''AZ1'' = Inr (Some \<lparr>row = 1, column = 52\<rparr>)"
  "toReference \<lparr>row = 1, column = 52\<rparr> = ''AZ1''"
  "fromReference ''BA1'' = Inr (Some \<lparr>row = 1, column = 53\<rparr>)"
  "toReference \<lparr>row = 1, column = 53\<rparr> = ''BA1''"
  "fromReference ''XFD1048576'' = Inr (Some \<lparr>row = 1048576, column = 16384\<rparr>)"
  "toReference \<lparr>row = 1048576, column = 16384\<rparr> = ''XFD1048576''"
  by code_simp+

text \<open>
  C5. Parsing the formatted reference of a coordinate returns the coordinate, for every
  row and column from 1 up to the largest \<open>int\<close>; and each of the references A1, Z9, AA1,
  AZ1, BA1 and XFD1048576 parses to a coordinate whose formatted reference is the
  reference itself.
\<close>

theorem C5_reference_round_trip:
  "(\<forall>r c. 1 \<le> r \<and> r \<le> INT_MAX \<and> 1 \<le> c \<and> c \<le> INT_MAX \<longrightarrow>
      fromReference (toReference \<lparr>row = r, column = c\<rparr>) = Inr (Some \<lparr>row = r, column = c\<rparr>))
   \<and> (\<forall>ref \<in> set [''A1'', ''Z9'', ''AA1'', ''AZ1'', ''BA1'', ''XFD1048576''].
         \<exists>c. fromReference ref = Inr (Some c) \<and> toReference c = ref)"
proof (intro conjI allI impI ballI)
  fix r c :: int
  assume "1 \<le> r \<and> r \<le> INT_MAX \<and> 1 \<le> c \<and> c \<le> INT_MAX"
  then show "fromReference (toReference \<lparr>row = r, column = c\<rparr>) = Inr (Some \<lparr>row = r, column = c\<rparr>)"
    using fromReference_toReference by blast
next
  fix ref :: string
  assume "ref \<in> set [''A1'', ''Z9'', ''AA1'', ''AZ1'', ''BA1'', ''XFD1048576'']"
  then have "ref = ''A1'' \<or> ref = ''Z9'' \<or> ref = ''AA1'' \<or> ref = ''AZ1''
    \<or> ref = ''BA1'' \<or> ref = ''XFD1048576''"
    by (simp only: list.set insert_iff empty_iff simp_thms)
  then show "\<exists>c. fromReference ref = Inr (Some c) \<and> toReference c = ref"
    using listed_references by blast
qed

theorem C5_reference_round_trip_witness:
  "fromReference (toReference \<lparr>row = 1048576, column = 16384\<rparr>)
     = Inr (Some \<lparr>row = 1048576, column = 16384\<rparr>)
   \<and> (\<exists>c. fromReference ''XFD1048576'' = Inr (Some c) \<and> toReference c = ''XFD1048576'')"
  using C5_reference_round_trip by (simp add: INT_MAX_def)

text \<open>
  C7 (as amended). A reference whose row exceeds 1,048,576 or whose column exceeds 16,384
  is accepted like any other, as long as row and column fit an \<open>int\<close>:
  \<open>parseCellReference\<close> returns true and stores the coordinate, \<open>parseCell\<close> keeps the
  cell with that coordinate, and \<open>fromReference\<close> returns the coordinate. No range check
  exists and no error is produced.
\<close>

theorem C7_references_beyond_limits_accepted:
  "(1048576 < r \<or> 16384 < c) \<and> 1 \<le> r \<and> r \<le> INT_MAX \<and> 1 \<le> c \<and> c \<le> INT_MAX \<longrightarrow>
     parseCellReference (toReference \<lparr>row = r, column = c\<rparr>) out
       = Inr (True, \<lparr>row = r, column = c\<rparr>)
     \<and> parseCell_head cell0 [(''r'', toReference \<lparr>row = r, column = c\<rparr>)]
       = Inr (cell0\<lparr>coordinate := \<lparr>row = r, column = c\<rparr>, type := Number\<rparr>)
     \<and> fromReference (toReference \<lparr>row = r, column = c\<rparr>)
       = Inr (Some \<lparr>row = r, column = c\<rparr>)"
proof (intro impI)
  assume h: "(1048576 < r \<or> 16384 < c) \<and> 1 \<le> r \<and> r \<le> INT_MAX \<and> 1 \<le> c \<and> c \<le> INT_MAX"
  then have r: "1 \<le> r" "r \<le> INT_MAX" and c: "1 \<le> c" "c \<le> INT_MAX" by simp_all
  have p: "\<And>out. parseCellReference (toReference \<lparr>row = r, column = c\<rparr>) out
       = Inr (True, \<lparr>row = r, column = c\<rparr>)"
    using parseCellReference_toReference [OF r c] .
  have name: "c_str ''r'' = ''r''" by (simp add: c_str_def NUL_def)
  have "parseCell_head cell0 [(''r'', toReference \<lparr>row = r, column = c\<rparr>)]
       = Inr (cell0\<lparr>coordinate := \<lparr>row = r, column = c\<rparr>, type := Number\<rparr>)"
    using p [of "coordinate cell0"] name
    by (simp add: parseCell_head_def parseCell_attribute_def)
  then show "parseCellReference (toReference \<lparr>row = r, column = c\<rparr>) out
       = Inr (True, \<lparr>row = r, column = c\<rparr>)
     \<and> parseCell_head cell0 [(''r'', toReference \<lparr>row = r, column = c\<rparr>)]
       = Inr (cell0\<lparr>coordinate := \<lparr>row = r, column = c\<rparr>, type := Number\<rparr>)
     \<and> fromReference (toReference \<lparr>row = r, column = c\<rparr>)
       = Inr (Some \<lparr>row = r, column = c\<rparr>)"
    using p [of out] fromReference_toReference [OF r c] by simp
qed

theorem C7_references_beyond_limits_accepted_witness:
  "parseCellReference (toReference \<lparr>row = 1048577, column = 16385\<rparr>) \<lparr>row = 0, column = 0\<rparr>
     = Inr (True, \<lparr>row = 1048577, column = 16385\<rparr>)
   \<and> toReference \<lparr>row = 1048577, column = 16385\<rparr> = ''XFE1048577''"
proof -
  have "toReference \<lparr>row = 1048577, column = 16385\<rparr> = ''XFE1048577''"
    by code_simp
  then show ?thesis
    using C7_references_beyond_limits_accepted
      [of 1048577 16385 "\<lparr>row = 0, column = 0\<rparr>"]
    by (simp add: INT_MAX_def)
qed

text \<open>
  C7 (as stated) fails: XFE1048577 lies beyond both limits, and the sheet reader accepts
  it as a coordinate.
\<close>

theorem C7_reference_beyond_limits_counterexample:
  "parseCellReference ''XFE1048577'' \<lparr>row = 0, column = 0\<rparr>
     = Inr (True, \<lparr>row = 1048577, column = 16385\<rparr>)
   \<and> (16384 :: int) < 16385 \<and> (1048576 :: int) < 1048577"
  by code_simp

subsection \<open>Value interpretation\<close>

text \<open>
  C6 (as amended). For a cell of type Boolean the text of the \<open>v\<close> element is interpreted as
  follows: the empty text gives the empty value, the text \<open>1\<close> gives true, and every other
  non-empty text (\<open>0\<close> included) gives false.
\<close>

theorem C6_boolean_value:
  "SheetStreamReader_convertCellValue strtod valueStr Boolean =
     (if valueStr = [] then Monostate else BoolV (valueStr = ''1''))"
  by (simp add: SheetStreamReader_convertCellValue_def)

theorem C6_boolean_value_witness:
  "SheetStreamReader_convertCellValue (\<lambda>s. (Finite 0, 0)) ''1'' Boolean = BoolV True
   \<and> SheetStreamReader_convertCellValue (\<lambda>s. (Finite 0, 0)) ''0'' Boolean = BoolV False
   \<and> SheetStreamReader_convertCellValue (\<lambda>s. (Finite 0, 0)) [] Boolean = Monostate"
  using C6_boolean_value [of "\<lambda>s. (Finite 0, 0)" "''1''"]
    C6_boolean_value [of "\<lambda>s. (Finite 0, 0)" "''0''"]
    C6_boolean_value [of "\<lambda>s. (Finite 0, 0)" "[]"]
  by simp

text \<open>
  C6 (as stated) fails: the text \<open>2\<close> of a Boolean cell is neither \<open>1\<close> nor \<open>0\<close>, and the
  value produced is false, not the empty value.
\<close>

theorem C6_boolean_other_text_counterexample:
  "SheetStreamReader_convertCellValue (\<lambda>s. (Finite 0, 0)) ''2'' Boolean = BoolV False
   \<and> BoolV False \<noteq> Monostate"
  by (simp add: SheetStreamReader_convertCellValue_def)

subsection \<open>Number and date formatting\<close>

lemma to_integer_of_int: "to_integer (of_int z) = z"
  by (simp add: to_integer_def)

text \<open>
  C4. \<open>formatNumericValue\<close> renders NaN as \<open>#NUM!\<close>, positive infinity as \<open>#DIV/0!\<close> and
  negative infinity as \<open>-#DIV/0!\<close>; an integral value between \<open>-10^15\<close> and \<open>10^15\<close>
  (both included) as its decimal digits with no fractional part; and every other value in
  fixed notation with six fractional digits, with the zeros at the end and a point left
  at the end removed.
\<close>

theorem C4_formatNumericValue:
  "formatNumericValue NaN = ''#NUM!''
   \<and> formatNumericValue PosInf = ''#DIV/0!''
   \<and> formatNumericValue NegInf = ''-#DIV/0!''
   \<and> (\<forall>z. - 1000000000000000 \<le> z \<and> z \<le> 1000000000000000 \<longrightarrow>
         formatNumericValue (Finite (of_int z)) = to_string z)
   \<and> (\<forall>x. \<not> (x \<in> \<int> \<and> - 1000000000000000 \<le> x \<and> x \<le> 1000000000000000) \<longrightarrow>
         formatNumericValue (Finite x) = strip_trailing (fixed6 x))"
proof (intro conjI allI impI)
  show "formatNumericValue NaN = ''#NUM!''" by (simp add: formatNumericValue_def)
  show "formatNumericValue PosInf = ''#DIV/0!''" by (simp add: formatNumericValue_def)
  show "formatNumericValue NegInf = ''-#DIV/0!''" by (simp add: formatNumericValue_def)
next
  fix z :: int
  assume range: "- 1000000000000000 \<le> z \<and> z \<le> 1000000000000000"
  have hi: "formatNumericValue (Finite (of_int 1000000000000000)) = to_string 1000000000000000"
    by code_simp
  have lo: "formatNumericValue (Finite (of_int (- 1000000000000000))) = to_string (- 1000000000000000)"
    by code_simp
  consider "z = 1000000000000000" | "z = - 1000000000000000" | "\<bar>z\<bar> < 1000000000000000"
    using range by linarith
  then show "formatNumericValue (Finite (of_int z)) = to_string z"
  proof cases
    case 1 then show ?thesis using hi by simp
  next
    case 2 then show ?thesis using lo by simp
  next
    case 3
    then have "\<bar>(of_int z :: rat)\<bar> < 1000000000000000"
      by (metis of_int_abs of_int_less_numeral_iff)
    then show ?thesis
      by (simp add: formatNumericValue_def to_integer_of_int)
  qed
next
  fix x :: rat
  assume h: "\<not> (x \<in> \<int> \<and> - 1000000000000000 \<le> x \<and> x \<le> 1000000000000000)"
  have "\<not> (x = of_int \<lfloor>x\<rfloor> \<and> \<bar>x\<bar> < 1000000000000000)"
  proof
    assume a: "x = of_int \<lfloor>x\<rfloor> \<and> \<bar>x\<bar> < 1000000000000000"
    then have "x \<in> \<int>" by (metis Ints_of_int)
    moreover have "- 1000000000000000 \<le> x \<and> x \<le> 1000000000000000" using a by linarith
    ultimately show False using h by blast
  qed
  then show "formatNumericValue (Finite x) = strip_trailing (fixed6 x)"
    by (auto simp: formatNumericValue_def)
qed

theorem C4_formatNumericValue_witness:
  "formatNumericValue (Finite 42) = ''42''
   \<and> formatNumericValue (Finite 1000000000000000) = ''1000000000000000''
   \<and> formatNumericValue (Finite (5 / 2)) = ''2.5''
   \<and> formatNumericValue (Finite (1 / 3)) = ''0.333333''"
proof -
  have ints: "\<And>z. - 1000000000000000 \<le> z \<and> z \<le> 1000000000000000 \<Longrightarrow>
         formatNumericValue (Finite (of_int z)) = to_string z"
    and others: "\<And>x. \<not> (x \<in> \<int> \<and> - 1000000000000000 \<le> x \<and> x \<le> 1000000000000000) \<Longrightarrow>
         formatNumericValue (Finite x) = strip_trailing (fixed6 x)"
    using C4_formatNumericValue by blast+
  have i: "to_string 42 = ''42''" "to_string 1000000000000000 = ''1000000000000000''"
    by code_simp+
  have f: "strip_trailing (fixed6 (5 / 2)) = ''2.5''" "strip_trailing (fixed6 (1 / 3)) = ''0.333333''"
    by code_simp+
  have fl: "\<lfloor>5 / 2 :: rat\<rfloor> = 2" "\<lfloor>1 / 3 :: rat\<rfloor> = 0"
    by code_simp+
  have "(5 / 2 :: rat) \<noteq> of_int \<lfloor>5 / 2 :: rat\<rfloor>" "(1 / 3 :: rat) \<noteq> of_int \<lfloor>1 / 3 :: rat\<rfloor>"
    unfolding fl by simp_all
  then have n: "(5 / 2 :: rat) \<notin> \<int>" "(1 / 3 :: rat) \<notin> \<int>"
    using of_int_floor by metis+
  show ?thesis
    using ints [of 42] ints [of 1000000000000000] others [of "5 / 2"] others [of "1 / 3"] i f n
    by simp
qed





subsection \<open>Cell conversion\<close>

text \<open>
  C3 (as amended). A number cell holding the serial 0, with a date-classified style, under
  \<open>Date1904\<close>, is rendered as \<open>1900-01-01\<close>: the test for a serial that is zero or
  negative returns before the 1462-day adjustment is applied.
\<close>

theorem C3_serial_zero_date1904:
  "type cell = Number \<and> value cell = DoubleV (Finite 0) \<and> 0 < styleIndex cell \<and>
   isDateTimeStyle st (styleIndex cell) \<longrightarrow>
   DataConverter_convertCellValue cell sharedStrings (Some st) Date1904 = Inr ''1900-01-01''"
  by (auto simp: DataConverter_convertCellValue_def convertNumericValue_def isEmpty_def
        getNumber_def convertExcelSerial_def)

theorem C3_serial_zero_date1904_witness:
  "DataConverter_convertCellValue
     \<lparr>coordinate = \<lparr>row = 1, column = 2\<rparr>, type = Number, styleIndex = 1,
      value = DoubleV (Finite 0)\<rparr>
     None (Some \<lparr>styles_isOpen = True, m_dateTimeStyleMask = [0, 1]\<rparr>) Date1904
   = Inr ''1900-01-01''"
  using C3_serial_zero_date1904
    [of "\<lparr>coordinate = \<lparr>row = 1, column = 2\<rparr>, type = Number, styleIndex = 1,
          value = DoubleV (Finite 0)\<rparr>"
        "\<lparr>styles_isOpen = True, m_dateTimeStyleMask = [0, 1]\<rparr>" None]
  by (simp add: isDateTimeStyle_def)

text \<open>
  C3 (as stated) fails: the rendering of that cell is not \<open>1904-01-01\<close>.
\<close>

theorem C3_serial_zero_date1904_counterexample:
  "DataConverter_convertCellValue
     \<lparr>coordinate = \<lparr>row = 1, column = 2\<rparr>, type = Number, styleIndex = 1,
      value = DoubleV (Finite 0)\<rparr>
     None (Some \<lparr>styles_isOpen = True, m_dateTimeStyleMask = [0, 1]\<rparr>) Date1904
   \<noteq> Inr ''1904-01-01''"
  by (simp add: DataConverter_convertCellValue_def convertNumericValue_def isEmpty_def
        getNumber_def convertExcelSerial_def isDateTimeStyle_def)

text \<open>
  C10. A number cell whose style index is 0 is rendered by \<open>formatNumericValue\<close> (or as
  the empty string when it holds no value), whatever the styles registry says about
  record 0; in general a style index that is not positive never reaches the date
  conversion.
\<close>

theorem C10_style_zero_plain_number:
  "(type cell = Number \<and> styleIndex cell = 0 \<longrightarrow>
      DataConverter_convertCellValue cell sharedStrings styles dateSystem =
        (if isEmpty cell then Inr [] else Inr (formatNumericValue (getNumber cell))))
   \<and> (styleIdx \<le> 0 \<longrightarrow>
      convertNumericValue v styleIdx styles dateSystem = Inr (formatNumericValue v))"
  by (auto simp: DataConverter_convertCellValue_def convertNumericValue_def split: option.splits)

theorem C10_style_zero_plain_number_witness:
  "isDateTimeStyle \<lparr>styles_isOpen = True, m_dateTimeStyleMask = [1]\<rparr> 0
   \<and> DataConverter_convertCellValue
        \<lparr>coordinate = \<lparr>row = 1, column = 1\<rparr>, type = Number, styleIndex = 0,
         value = DoubleV (Finite 44562)\<rparr>
        None (Some \<lparr>styles_isOpen = True, m_dateTimeStyleMask = [1]\<rparr>) Date1900
      = Inr ''44562''"
proof -
  let ?cell = "\<lparr>coordinate = \<lparr>row = 1, column = 1\<rparr>, type = Number, styleIndex = 0,
         value = DoubleV (Finite 44562)\<rparr>"
  let ?st = "\<lparr>styles_isOpen = True, m_dateTimeStyleMask = [1]\<rparr>"
  have fmt: "formatNumericValue (Finite 44562) = ''44562''"
    by code_simp
  have "DataConverter_convertCellValue ?cell None (Some ?st) Date1900 =
        (if isEmpty ?cell then Inr [] else Inr (formatNumericValue (getNumber ?cell)))"
    using C10_style_zero_plain_number [of ?cell None "Some ?st" Date1900 0 "Finite 0"] by simp
  then show ?thesis
    using fmt by (simp add: isEmpty_def getNumber_def isDateTimeStyle_def)
qed

subsection \<open>CSV quoting\<close>

lemma appendEscapedChars_eq:
  "appendEscapedChars out field =
     out @ concat (map (\<lambda>ch. if ch = DQUOTE then [DQUOTE, DQUOTE] else [ch]) field)"
  by (induction field arbitrary: out) auto

lemma appendEscapedCsvField_output:
  "m_csvOutput (appendEscapedCsvField this field) =
     m_csvOutput this @
       (if m_delimiter this \<in> set field \<or> DQUOTE \<in> set field \<or> LF \<in> set field \<or> CR \<in> set field
        then [DQUOTE] @ concat (map (\<lambda>ch. if ch = DQUOTE then [DQUOTE, DQUOTE] else [ch]) field)
               @ [DQUOTE]
        else field)"
  by (simp add: appendEscapedCsvField_def appendEscapedChars_eq Let_def)

text \<open>
  C1 (the code at the failing input). With \<open>quoteAll\<close> set and the comma as delimiter,
  the field \<open>abc\<close> is appended without quotes: \<open>appendEscapedCsvField\<close> never reads the
  option.
\<close>

theorem C1_quoteAll_not_consulted:
  "m_csvOutput
     (appendEscapedCsvField
        (CsvRowCollectorImpl_new
           (Some \<lparr>delimiter = CHR '','', quoteAll = True, includeHiddenRows = True,
                  includeHiddenColumns = True, mergedHandling = NONE\<rparr>))
        ''abc'') = ''abc''"
  by (simp add: appendEscapedCsvField_def CsvRowCollectorImpl_new_def NUL_def DQUOTE_def LF_def CR_def)

subsection \<open>ZIP listing\<close>

text \<open>
  The sanitised name has no backslash and no leading slash; a path that is not suspicious
  has the remaining properties. The loop of \<open>listEntries\<close> only adds such paths, so the
  cache of every reachable reader holds only such paths.
\<close>

lemma sanitizePath_no_backslash: "BACKSLASH \<notin> set (sanitizePath p)"
proof -
  have "BACKSLASH \<notin> set (map (\<lambda>c. if c = BACKSLASH then SLASH else c) p)"
    by (auto simp: BACKSLASH_def SLASH_def)
  then show ?thesis
    unfolding sanitizePath_def by (meson set_dropWhileD)
qed

lemma sanitizePath_no_leading_slash: "sanitizePath p = [] \<or> hd (sanitizePath p) \<noteq> SLASH"
  unfolding sanitizePath_def
  by (metis (mono_tags, lifting) hd_dropWhile)

lemma not_suspicious_ok:
  "\<not> isPathSuspicious p \<Longrightarrow> \<not> contains ''..'' p \<and> NUL \<notin> set p \<and> length p \<le> 1024"
  by (auto simp: isPathSuspicious_def split: if_splits)

lemma suspicious_iff:
  "isPathSuspicious p \<longleftrightarrow>
     contains ''..'' p \<or> (p \<noteq> [] \<and> hd p = SLASH) \<or> NUL \<in> set p \<or> 1024 < length p"
  by (auto simp: isPathSuspicious_def)

lemma listEntries_loop_ok:
  "\<forall>e \<in> set entries. listed_path_ok (path e) \<Longrightarrow>
   \<forall>e \<in> set (snd (listEntries_loop limits files entries)). listed_path_ok (path e)"
proof (induction files arbitrary: entries)
  case Nil
  then show ?case by simp
next
  case (Cons fileInfo files)
  let ?p = "sanitizePath (filename fileInfo)"
  have ok: "\<not> isPathSuspicious ?p \<Longrightarrow> listed_path_ok ?p"
    using sanitizePath_no_backslash [of "filename fileInfo"]
      sanitizePath_no_leading_slash [of "filename fileInfo"] not_suspicious_ok [of ?p]
    by (simp add: listed_path_ok_def)
  show ?case
    using Cons.IH [of entries] Cons.IH [of "entries @ [\<lparr>path = ?p,
                   compressedSize = compressed_size fileInfo,
                   uncompressedSize = uncompressed_size fileInfo,
                   isEncrypted = odd (flag fileInfo)\<rparr>]"] Cons.prems ok
    by (auto simp: Let_def)
qed

lemma listEntries_cache_ok:
  assumes "\<forall>e \<in> set (m_entries this). listed_path_ok (path e)"
  shows "\<forall>e \<in> set (m_entries (snd (listEntries this))). listed_path_ok (path e)"
proof (cases "\<not> m_isOpen this \<or> m_entries this \<noteq> [] \<or> m_unzFile this = None")
  case True
  then show ?thesis using assms by (auto simp: listEntries_def)
next
  case False
  then obtain files where f: "m_unzFile this = Some files" by auto
  have "\<forall>e \<in> set (snd (listEntries_loop (m_limits this) files (m_entries this))). listed_path_ok (path e)"
    using listEntries_loop_ok [OF assms] .
  then show ?thesis
    using False f by (auto simp: listEntries_def split: prod.splits option.splits)
qed

lemma listEntries_result_cached:
  "listEntries this = (Inr entries, this') \<Longrightarrow> entries = m_entries this'"
  by (auto simp: listEntries_def split: if_splits prod.splits option.splits)

lemma reachable_cache_ok:
  "reachable this \<Longrightarrow> \<forall>e \<in> set (m_entries this). listed_path_ok (path e)"
proof (induction rule: reachable.induct)
  case (reachable_new limits)
  then show ?case by (simp add: ZipReader_new_def)
next
  case (reachable_open this found)
  then show ?case
    by (cases found) (auto simp: open_zip_def close_def Let_def split: option.splits)
next
  case (reachable_close this)
  then show ?case by (simp add: close_def)
next
  case (reachable_list this)
  then show ?case using listEntries_cache_ok by blast
qed

text \<open>
  C8. For every reader state that can arise: each path in a listing that \<open>listEntries\<close>
  returns has no backslash and no leading \<open>/\<close>; and a path that contains \<open>..\<close>, starts
  with \<open>/\<close>, contains a NUL byte or is longer than 1024 bytes appears in no listing and
  makes \<open>readEntry\<close> raise an error.
\<close>

theorem C8_listing_paths_sanitized:
  "reachable this \<longrightarrow>
     (\<forall>entries this'. listEntries this = (Inr entries, this') \<longrightarrow>
        (\<forall>e \<in> set entries. BACKSLASH \<notin> set (path e) \<and> (path e = [] \<or> hd (path e) \<noteq> SLASH)))
     \<and> (\<forall>p. contains ''..'' p \<or> (p \<noteq> [] \<and> hd p = SLASH) \<or> NUL \<in> set p \<or> 1024 < length p \<longrightarrow>
          (\<forall>entries this'. listEntries this = (Inr entries, this') \<longrightarrow> p \<notin> set (map path entries))
          \<and> (\<exists>err. readEntry this p = Inl err))"
proof (intro impI conjI allI ballI)
  fix entries this' e
  assume r: "reachable this" and l: "listEntries this = (Inr entries, this')" and e: "e \<in> set entries"
  have "reachable this'" using reachable_list [OF r] l by simp
  then have "listed_path_ok (path e)"
    using reachable_cache_ok listEntries_result_cached [OF l] e by blast
  then show "BACKSLASH \<notin> set (path e)" "path e = [] \<or> hd (path e) \<noteq> SLASH"
    by (simp_all add: listed_path_ok_def)
next
  fix p entries this'
  assume r: "reachable this"
    and s: "contains ''..'' p \<or> (p \<noteq> [] \<and> hd p = SLASH) \<or> NUL \<in> set p \<or> 1024 < length p"
    and l: "listEntries this = (Inr entries, this')"
  have "reachable this'" using reachable_list [OF r] l by simp
  then have "\<forall>e \<in> set entries. listed_path_ok (path e)"
    using reachable_cache_ok listEntries_result_cached [OF l] by blast
  then show "p \<notin> set (map path entries)"
    using s by (auto simp: listed_path_ok_def)
next
  fix p
  assume s: "contains ''..'' p \<or> (p \<noteq> [] \<and> hd p = SLASH) \<or> NUL \<in> set p \<or> 1024 < length p"
  then have "isPathSuspicious p" by (simp add: suspicious_iff)
  then show "\<exists>err. readEntry this p = Inl err"
    by (simp add: readEntry_def)
qed

theorem C8_listing_paths_sanitized_witness:
  "(let limits = \<lparr>maxEntries = 10, maxEntrySize = 100, maxTotalUncompressed = 1000\<rparr>;
        archive =
          [\<lparr>filename = ''xl'' @ [BACKSLASH] @ ''workbook.xml'', compressed_size = 1,
            uncompressed_size = 2, flag = 0, contents = ''ab''\<rparr>,
           \<lparr>filename = ''../evil'', compressed_size = 1, uncompressed_size = 2, flag = 0,
            contents = ''cd''\<rparr>,
           \<lparr>filename = ''/abs.txt'', compressed_size = 1, uncompressed_size = 2, flag = 0,
            contents = ''ef''\<rparr>];
        this = snd (open_zip (ZipReader_new limits) (Archive archive))
    in reachable this
       \<and> fst (listEntries this) =
           Inr [\<lparr>path = ''xl/workbook.xml'', compressedSize = 1, uncompressedSize = 2,
                 isEncrypted = False\<rparr>,
                \<lparr>path = ''abs.txt'', compressedSize = 1, uncompressedSize = 2,
                 isEncrypted = False\<rparr>]
       \<and> (\<exists>err. readEntry this ''../evil'' = Inl err))"
proof -
  define limits where "limits = \<lparr>maxEntries = 10, maxEntrySize = 100, maxTotalUncompressed = 1000\<rparr>"
  define archive where "archive =
          [\<lparr>filename = ''xl'' @ [BACKSLASH] @ ''workbook.xml'', compressed_size = 1,
            uncompressed_size = 2, flag = 0, contents = ''ab''\<rparr>,
           \<lparr>filename = ''../evil'', compressed_size = 1, uncompressed_size = 2, flag = 0,
            contents = ''cd''\<rparr>,
           \<lparr>filename = ''/abs.txt'', compressed_size = 1, uncompressed_size = 2, flag = 0,
            contents = ''ef''\<rparr>]"
  define this where "this = snd (open_zip (ZipReader_new limits) (Archive archive))"
  have r: "reachable this"
    unfolding this_def by (rule reachable_open [OF reachable_new])
  have l: "fst (listEntries this) =
           Inr [\<lparr>path = ''xl/workbook.xml'', compressedSize = 1, uncompressedSize = 2,
                 isEncrypted = False\<rparr>,
                \<lparr>path = ''abs.txt'', compressedSize = 1, uncompressedSize = 2,
                 isEncrypted = False\<rparr>]"
    unfolding this_def limits_def archive_def
    by (simp add: listEntries_def open_zip_def ZipReader_new_def Let_def sanitizePath_def
        isPathSuspicious_def BACKSLASH_def SLASH_def NUL_def)
  have s: "contains ''..'' ''../evil''" by simp
  have "\<exists>err. readEntry this ''../evil'' = Inl err"
    using C8_listing_paths_sanitized [of this] r s by blast
  then show ?thesis
    using r l unfolding this_def limits_def archive_def by (simp add: Let_def)
qed

subsection \<open>Shared strings\<close>

text \<open>
  Each store appends to the arena or to the file and records where the string starts;
  strings stored earlier read back unchanged, and the string just stored reads back as
  itself. By induction over the items, after the second pass every index below the count
  reads back the string of its item.
\<close>

lemma c_str_no_NUL: "NUL \<notin> set (c_str s)"
  unfolding c_str_def by (auto dest: set_takeWhileD)

lemma parseStringItem_no_NUL: "NUL \<notin> set (parseStringItem config texts)"
proof -
  have "NUL \<notin> set (concat (map c_str texts))"
    using c_str_no_NUL by auto
  then show ?thesis
    unfolding parseStringItem_def Let_def by (auto dest: in_set_takeD)
qed

lemma resize_for_end: "(resize_for (length xs) z xs)[length xs := a] = xs @ [a]"
  by (simp add: resize_for_def)

lemma uint32_round_trip: "n < 2 ^ 32 \<Longrightarrow> uint32_of_bytes (uint32_bytes n) = n"
proof -
  assume "n < 2 ^ 32"
  then have n: "n < 4294967296" by simp
  have a: "n = 256 * (n div 256) + n mod 256" by simp
  have b: "n div 256 = 256 * (n div 256 div 256) + n div 256 mod 256" by simp
  have c: "n div 256 div 256 = 256 * (n div 256 div 256 div 256) + n div 256 div 256 mod 256" by simp
  have d: "n div 256 div 256 div 256 < 256" using n by (simp add: div_mult2_eq [symmetric] less_mult_imp_div_less)
  have e: "n div 65536 = n div 256 div 256" "n div 16777216 = n div 256 div 256 div 256"
    by (simp_all add: div_mult2_eq [symmetric])
  have "n mod 256 + 256 * (n div 256 mod 256) + 65536 * (n div 256 div 256 mod 256)
      + 16777216 * (n div 256 div 256 div 256) = n"
    using a b c by linarith
  then show ?thesis
    using d e by (simp add: uint32_of_bytes_def uint32_bytes_def)
qed

lemma arena_step:
  assumes len: "length (m_offsets this) = length done"
    and rd: "\<forall>i<length done. getStringFromArena this i = Some (done ! i)"
    and endNUL: "m_arena this = [] \<or> last (m_arena this) = NUL"
    and nn: "NUL \<notin> set v"
    and bound: "length (m_arena this) < 2 ^ 32"
  shows "length (m_offsets (storeStringToArena this (length done) v)) = length (done @ [v])"
    and "\<forall>i<length (done @ [v]).
           getStringFromArena (storeStringToArena this (length done) v) i = Some ((done @ [v]) ! i)"
    and "m_arena (storeStringToArena this (length done) v) = [] \<or>
         last (m_arena (storeStringToArena this (length done) v)) = NUL"
proof -
  let ?this' = "storeStringToArena this (length done) v"
  have "length (m_arena this) mod 2 ^ 32 = length (m_arena this)"
    using bound by simp
  then have off: "m_offsets ?this' = m_offsets this @ [length (m_arena this)]"
    using resize_for_end [of "m_offsets this" 0 "length (m_arena this)"]
    unfolding storeStringToArena_def Let_def len [symmetric] by simp
  have ar: "m_arena ?this' = m_arena this @ v @ [NUL]"
    by (simp add: storeStringToArena_def Let_def)
  show "length (m_offsets ?this') = length (done @ [v])"
    using off len by simp
  show "m_arena ?this' = [] \<or> last (m_arena ?this') = NUL"
    using ar by simp
  show "\<forall>i<length (done @ [v]). getStringFromArena ?this' i = Some ((done @ [v]) ! i)"
  proof (intro allI impI)
    fix i
    assume i: "i < length (done @ [v])"
    show "getStringFromArena ?this' i = Some ((done @ [v]) ! i)"
    proof (cases "i < length done")
      case True
      have old: "getStringFromArena this i = Some (done ! i)" using rd True by blast
      let ?o = "m_offsets this ! i"
      have o_lt: "?o < length (m_arena this)"
        using old True len
        by (auto simp: getStringFromArena_def Let_def split: if_splits)
      have val: "takeWhile (\<lambda>c. c \<noteq> NUL) (drop ?o (m_arena this)) = done ! i"
        using old True len
        by (auto simp: getStringFromArena_def Let_def split: if_splits)
      have ne: "drop ?o (m_arena this) \<noteq> []" using o_lt by simp
      have "last (drop ?o (m_arena this)) = NUL"
        using endNUL o_lt by (auto simp: last_drop)
      then have has: "NUL \<in> set (drop ?o (m_arena this))"
        using ne last_in_set by metis
      have "takeWhile (\<lambda>c. c \<noteq> NUL) (drop ?o (m_arena this @ v @ [NUL]))
            = takeWhile (\<lambda>c. c \<noteq> NUL) (drop ?o (m_arena this) @ v @ [NUL])"
        using o_lt by simp
      also have "\<dots> = takeWhile (\<lambda>c. c \<noteq> NUL) (drop ?o (m_arena this))"
        using has by (simp add: takeWhile_append1 [of NUL])
      finally have tw: "takeWhile (\<lambda>c. c \<noteq> NUL) (drop ?o (m_arena this @ v @ [NUL])) = done ! i"
        using val by simp
      have "getStringFromArena ?this' i =
          Some (takeWhile (\<lambda>c. c \<noteq> NUL) (drop ?o (m_arena this @ v @ [NUL])))"
        unfolding getStringFromArena_def Let_def off ar
        using True len o_lt by (simp add: nth_append)
      then show ?thesis using tw True by (simp add: nth_append)
    next
      case False
      then have ieq: "i = length done" using i by simp
      have tw: "takeWhile (\<lambda>c. c \<noteq> NUL) (v @ [NUL]) = v"
        using nn by (induction v) auto
      have "getStringFromArena ?this' i = Some (takeWhile (\<lambda>c. c \<noteq> NUL) (v @ [NUL]))"
        unfolding getStringFromArena_def Let_def off ar
        using ieq len by (simp add: nth_append)
      then show ?thesis using tw ieq by (simp add: nth_append)
    qed
  qed
qed

lemma readStringFromDisk_append:
  assumes f: "m_diskFile this = Opened bytes"
    and old: "readStringFromDisk this i = Some s"
    and f': "m_diskFile this' = Opened (bytes @ appended)"
    and d': "m_isUsingDisk this'"
    and i': "i < length (m_diskOffsets this')"
    and same: "m_diskOffsets this' ! i = m_diskOffsets this ! i"
  shows "readStringFromDisk this' i = Some s"
proof -
  let ?pos = "m_diskOffsets this ! i"
  let ?len = "uint32_of_bytes (take 4 (drop (nat ?pos) bytes))"
  have p0: "0 \<le> ?pos" and p4: "?pos + 4 \<le> int (length bytes)"
    using old f by (auto simp: readStringFromDisk_def Let_def split: if_splits)
  have body: "?len \<le> length (drop (nat ?pos + 4) bytes)"
    and res: "s = take ?len (drop (nat ?pos + 4) bytes)"
    using old f by (auto simp: readStringFromDisk_def Let_def split: if_splits)
  have n4: "nat ?pos + 4 \<le> length bytes" using p0 p4 by linarith
  have t4: "take 4 (drop (nat ?pos) (bytes @ appended)) = take 4 (drop (nat ?pos) bytes)"
    using n4 by simp
  have dr: "drop (nat ?pos + 4) (bytes @ appended) = drop (nat ?pos + 4) bytes @ appended"
    using n4 by simp
  have tk: "take ?len (drop (nat ?pos + 4) bytes @ appended) = take ?len (drop (nat ?pos + 4) bytes)"
    using body by simp
  have "readStringFromDisk this' i = Some (take ?len (drop (nat ?pos + 4) bytes))"
    unfolding readStringFromDisk_def Let_def f' same
    using d' i' p0 p4 body t4 dr tk by (simp del: drop_append take_append)
  then show ?thesis using res by simp
qed

lemma disk_step:
  assumes disk: "m_isUsingDisk this"
    and f: "m_diskFile this = Opened bytes"
    and len: "length (m_diskOffsets this) = length done"
    and rd: "\<forall>i<length done. readStringFromDisk this i = Some (done ! i)"
    and vlen: "length v < 2 ^ 32"
  shows "m_diskFile (storeStringToDisk this (length done) v)
           = Opened (bytes @ uint32_bytes (length v) @ v)"
    and "m_isUsingDisk (storeStringToDisk this (length done) v)"
    and "length (m_diskOffsets (storeStringToDisk this (length done) v)) = length (done @ [v])"
    and "\<forall>i<length (done @ [v]).
           readStringFromDisk (storeStringToDisk this (length done) v) i = Some ((done @ [v]) ! i)"
proof -
  let ?this' = "storeStringToDisk this (length done) v"
  have lv: "length v mod 2 ^ 32 = length v" using vlen by simp
  show f': "m_diskFile ?this' = Opened (bytes @ uint32_bytes (length v) @ v)"
    unfolding storeStringToDisk_def Let_def lv f by simp
  show d': "m_isUsingDisk ?this'"
    unfolding storeStringToDisk_def Let_def lv f using disk by simp
  have off: "m_diskOffsets ?this' = m_diskOffsets this @ [int (length bytes)]"
    using resize_for_end [of "m_diskOffsets this" 0 "int (length bytes)"]
    unfolding storeStringToDisk_def Let_def lv f len [symmetric] by simp
  show l': "length (m_diskOffsets ?this') = length (done @ [v])"
    using off len by simp
  show "\<forall>i<length (done @ [v]). readStringFromDisk ?this' i = Some ((done @ [v]) ! i)"
  proof (intro allI impI)
    fix i
    assume i: "i < length (done @ [v])"
    show "readStringFromDisk ?this' i = Some ((done @ [v]) ! i)"
    proof (cases "i < length done")
      case True
      have old: "readStringFromDisk this i = Some (done ! i)" using rd True by blast
      have same: "m_diskOffsets ?this' ! i = m_diskOffsets this ! i"
        using off True len by (simp add: nth_append)
      have "readStringFromDisk ?this' i = Some (done ! i)"
        using readStringFromDisk_append [OF f old f' d' _ same] i l' by simp
      then show ?thesis using True by (simp add: nth_append)
    next
      case False
      then have ieq: "i = length done" using i by simp
      have pos: "m_diskOffsets ?this' ! i = int (length bytes)"
        using off ieq len by (simp add: nth_append)
      have b4: "length (uint32_bytes (length v)) = 4" by (simp add: uint32_bytes_def)
      have t4: "take 4 (drop (length bytes) (bytes @ uint32_bytes (length v) @ v))
                  = uint32_bytes (length v)"
        using b4 by simp
      have dr: "drop (length bytes + 4) (bytes @ uint32_bytes (length v) @ v) = v"
        using b4 by simp
      have dec: "uint32_of_bytes (uint32_bytes (length v)) = length v"
        using uint32_round_trip [OF vlen] .
      have "readStringFromDisk ?this' i = Some v"
        unfolding readStringFromDisk_def Let_def f' pos
        using d' i l' ieq t4 dr dec b4 by (simp del: drop_append take_append)
      then show ?thesis using ieq by (simp add: nth_append)
    qed
  qed
qed

lemma storeStringToArena_fields:
  "m_config (storeStringToArena this k v) = m_config this"
  "m_isUsingDisk (storeStringToArena this k v) = m_isUsingDisk this"
  "length (m_arena (storeStringToArena this k v)) = length (m_arena this) + length v + 1"
  by (simp_all add: storeStringToArena_def Let_def)

lemma storeStringToDisk_config:
  "m_config (storeStringToDisk this k v) = m_config this"
  by (simp add: storeStringToDisk_def Let_def split: fstream.splits)

lemma parseStrings_loop_arena:
  assumes "\<not> m_isUsingDisk this"
    and "length (m_offsets this) = length done"
    and "\<forall>i<length done. getStringFromArena this i = Some (done ! i)"
    and "m_arena this = [] \<or> last (m_arena this) = NUL"
    and "length (m_arena this)
          + (\<Sum>si\<leftarrow>items. length (parseStringItem (m_config this) si) + 1) < 2 ^ 32"
  shows "\<exists>this'. parseStrings_loop this (length done) items = (this', length done + length items)
           \<and> \<not> m_isUsingDisk this'
           \<and> (\<forall>i<length done + length items.
                 getStringFromArena this' i
                   = Some ((done @ map (parseStringItem (m_config this)) items) ! i))"
  using assms
proof (induction items arbitrary: this "done")
  case Nil
  then show ?case by simp
next
  case (Cons si items)
  let ?v = "parseStringItem (m_config this) si"
  let ?this1 = "storeStringToArena this (length done) ?v"
  have st: "storeString this (length done) ?v = ?this1"
    using Cons.prems(1) by (simp add: storeString_def)
  have bound: "length (m_arena this) < 2 ^ 32" using Cons.prems(5) by simp
  note step = arena_step [OF Cons.prems(2) Cons.prems(3) Cons.prems(4) parseStringItem_no_NUL bound,
      of "m_config this" si]
  have nd: "\<not> m_isUsingDisk ?this1"
    using Cons.prems(1) by (simp add: storeStringToArena_fields)
  have cfg: "m_config ?this1 = m_config this" by (simp add: storeStringToArena_fields)
  have bound1: "length (m_arena ?this1)
          + (\<Sum>si\<leftarrow>items. length (parseStringItem (m_config ?this1) si) + 1) < 2 ^ 32"
    using Cons.prems(5) by (simp add: storeStringToArena_fields)
  obtain this' where
    l: "parseStrings_loop ?this1 (length (done @ [?v])) items
          = (this', length (done @ [?v]) + length items)"
    and nd': "\<not> m_isUsingDisk this'"
    and rd': "\<forall>i<length (done @ [?v]) + length items.
                 getStringFromArena this' i
                   = Some (((done @ [?v]) @ map (parseStringItem (m_config ?this1)) items) ! i)"
    using Cons.IH [OF nd step(1) step(2) step(3) bound1] by blast
  have "parseStrings_loop this (length done) (si # items) = (this', length done + length (si # items))"
    using l st by simp
  moreover have "\<forall>i<length done + length (si # items).
        getStringFromArena this' i
          = Some ((done @ map (parseStringItem (m_config this)) (si # items)) ! i)"
    using rd' cfg by simp
  ultimately show ?case using nd' by blast
qed

lemma parseStrings_loop_disk:
  assumes "m_isUsingDisk this"
    and "m_diskFile this = Opened bytes"
    and "length (m_diskOffsets this) = length done"
    and "\<forall>i<length done. readStringFromDisk this i = Some (done ! i)"
    and "(\<Sum>si\<leftarrow>items. length (parseStringItem (m_config this) si) + 1) < 2 ^ 32"
  shows "\<exists>this'. parseStrings_loop this (length done) items = (this', length done + length items)
           \<and> m_isUsingDisk this'
           \<and> (\<forall>i<length done + length items.
                 readStringFromDisk this' i
                   = Some ((done @ map (parseStringItem (m_config this)) items) ! i))"
  using assms
proof (induction items arbitrary: this "done" bytes)
  case Nil
  then show ?case by simp
next
  case (Cons si items)
  let ?v = "parseStringItem (m_config this) si"
  let ?this1 = "storeStringToDisk this (length done) ?v"
  have st: "storeString this (length done) ?v = ?this1"
    using Cons.prems(1) by (simp add: storeString_def)
  have vlen: "length ?v < 2 ^ 32" using Cons.prems(5) by simp
  note step = disk_step [OF Cons.prems(1) Cons.prems(2) Cons.prems(3) Cons.prems(4) vlen]
  have cfg: "m_config ?this1 = m_config this" by (simp add: storeStringToDisk_config)
  have bound1: "(\<Sum>si\<leftarrow>items. length (parseStringItem (m_config ?this1) si) + 1) < 2 ^ 32"
    using Cons.prems(5) by (simp add: storeStringToDisk_config)
  obtain this' where
    l: "parseStrings_loop ?this1 (length (done @ [?v])) items
          = (this', length (done @ [?v]) + length items)"
    and d': "m_isUsingDisk this'"
    and rd': "\<forall>i<length (done @ [?v]) + length items.
                 readStringFromDisk this' i
                   = Some (((done @ [?v]) @ map (parseStringItem (m_config ?this1)) items) ! i)"
    using Cons.IH [OF step(2) step(1) step(3) step(4) bound1] by blast
  have "parseStrings_loop this (length done) (si # items) = (this', length done + length (si # items))"
    using l st by simp
  moreover have "\<forall>i<length done + length (si # items).
        readStringFromDisk this' i
          = Some ((done @ map (parseStringItem (m_config this)) (si # items)) ! i)"
    using rd' cfg by simp
  ultimately show ?case using d' by blast
qed

lemma lookup_frame:
  "getStringFromArena (this\<lparr>m_stringCount := n\<rparr>) i = getStringFromArena this i"
  "getStringFromArena (this\<lparr>ss_isOpen := b\<rparr>) i = getStringFromArena this i"
  "readStringFromDisk (this\<lparr>m_stringCount := n\<rparr>) i = readStringFromDisk this i"
  "readStringFromDisk (this\<lparr>ss_isOpen := b\<rparr>) i = readStringFromDisk this i"
  by (simp_all add: getStringFromArena_def readStringFromDisk_def Let_def split: fstream.splits)

lemma parseWithReader_new:
  assumes bound: "(\<Sum>si\<leftarrow>items. length (parseStringItem config si) + 1) < 2 ^ 32"
  shows "\<exists>this. parseWithReader (SharedStringsProvider_new config) siElements items = this
           \<and> m_stringCount this = length items
           \<and> (\<forall>i<length items.
                 (if m_isUsingDisk this then readStringFromDisk this i else getStringFromArena this i)
                   = Some (parseStringItem config (items ! i)))"
proof -
  let ?new = "SharedStringsProvider_new config"
  let ?d = "decideStorageMode (?new\<lparr>m_stringCount := 0\<rparr>) (50 * siElements)"
  have cfg: "m_config ?d = config"
    by (simp add: decideStorageMode_def initializeDiskStorage_def SharedStringsProvider_new_def
        split: SharedStringsMode.splits)
  show ?thesis
  proof (cases "m_isUsingDisk ?d")
    case False
    have a: "length (m_offsets ?d) = length ([] :: string list)"
      and b: "m_arena ?d = [] \<or> last (m_arena ?d) = NUL"
      and c: "length (m_arena ?d) = 0"
      by (simp_all add: decideStorageMode_def initializeDiskStorage_def
          SharedStringsProvider_new_def split: SharedStringsMode.splits)
    have r: "\<forall>i<length ([] :: string list). getStringFromArena ?d i = Some ([] ! i)" by simp
    have bd: "length (m_arena ?d)
          + (\<Sum>si\<leftarrow>items. length (parseStringItem (m_config ?d) si) + 1) < 2 ^ 32"
      using bound c cfg by simp
    obtain this' where
      l: "parseStrings_loop ?d (length ([] :: string list)) items
            = (this', length ([] :: string list) + length items)"
      and nd: "\<not> m_isUsingDisk this'"
      and rd: "\<forall>i<length ([] :: string list) + length items.
                 getStringFromArena this' i
                   = Some (([] @ map (parseStringItem (m_config ?d)) items) ! i)"
      using parseStrings_loop_arena [OF False a r b bd] by blast
    have p: "parseWithReader ?new siElements items = this'\<lparr>m_stringCount := length items\<rparr>"
      using l by (simp add: parseWithReader_def parseStrings_def)
    have "\<forall>i<length items.
        getStringFromArena (this'\<lparr>m_stringCount := length items\<rparr>) i
          = Some (parseStringItem config (items ! i))"
      using rd cfg by (simp add: lookup_frame)
    then show ?thesis using p nd by simp
  next
    case True
    have f: "m_diskFile ?d = Opened []"
      using True
      by (auto simp: decideStorageMode_def initializeDiskStorage_def
          SharedStringsProvider_new_def split: SharedStringsMode.splits if_splits)
    have a: "length (m_diskOffsets ?d) = length ([] :: string list)"
      by (simp add: decideStorageMode_def initializeDiskStorage_def
          SharedStringsProvider_new_def split: SharedStringsMode.splits)
    have r: "\<forall>i<length ([] :: string list). readStringFromDisk ?d i = Some ([] ! i)" by simp
    have bd: "(\<Sum>si\<leftarrow>items. length (parseStringItem (m_config ?d) si) + 1) < 2 ^ 32"
      using bound cfg by simp
    obtain this' where
      l: "parseStrings_loop ?d (length ([] :: string list)) items
            = (this', length ([] :: string list) + length items)"
      and d': "m_isUsingDisk this'"
      and rd: "\<forall>i<length ([] :: string list) + length items.
                 readStringFromDisk this' i
                   = Some (([] @ map (parseStringItem (m_config ?d)) items) ! i)"
      using parseStrings_loop_disk [OF True f a r bd] by blast
    have p: "parseWithReader ?new siElements items = this'\<lparr>m_stringCount := length items\<rparr>"
      using l by (simp add: parseWithReader_def parseStrings_def)
    have "\<forall>i<length items.
        readStringFromDisk (this'\<lparr>m_stringCount := length items\<rparr>) i
          = Some (parseStringItem config (items ! i))"
      using rd cfg by (simp add: lookup_frame)
    then show ?thesis using p d' by simp
  qed
qed

text \<open>
  C9. With the package open: when \<open>xl/sharedStrings.xml\<close> is absent, \<open>parse\<close> raises
  nothing, the count is 0 and every lookup is absent (\<open>tryGetString\<close> gives nothing,
  \<open>getString\<close> raises). When the part is present and a new provider parses it (the
  strings, with their terminators, taking less than \<open>2^32\<close> bytes), the count is the
  number of items, \<open>tryGetString i\<close> is the string of item \<open>i\<close> below the count and nothing
  from the count on, and \<open>getString i\<close> raises exactly when \<open>i\<close> is at least the count
  and returns the stored string otherwise.
\<close>

theorem C9_shared_strings_lookup:
  "pkg_isOpen package \<longrightarrow>
     (sharedStringsPart package = Absent \<longrightarrow>
        (\<exists>this. SharedStrings_parse this0 package = (None, this)
           \<and> getStringCount this = 0
           \<and> (\<forall>i. tryGetString this i = None)
           \<and> (\<forall>i. \<exists>err. SharedStrings_getString this i = Inl err)))
     \<and> (\<forall>siElements items. sharedStringsPart package = Present siElements items
             \<and> (\<Sum>si\<leftarrow>items. length (parseStringItem config si) + 1) < 2 ^ 32 \<longrightarrow>
        (\<exists>this. SharedStrings_parse (SharedStringsProvider_new config) package = (None, this)
           \<and> getStringCount this = length items
           \<and> (\<forall>i. tryGetString this i =
                 (if i < getStringCount this then Some (parseStringItem config (items ! i))
                  else None))
           \<and> (\<forall>i. (\<exists>err. SharedStrings_getString this i = Inl err) \<longleftrightarrow> getStringCount this \<le> i)
           \<and> (\<forall>i. i < getStringCount this \<longrightarrow>
                 SharedStrings_getString this i = Inr (parseStringItem config (items ! i)))))"
proof (intro impI conjI allI)
  assume o: "pkg_isOpen package" and a: "sharedStringsPart package = Absent"
  let ?closed = "if ss_isOpen this0 then SharedStrings_close this0 else this0"
  let ?p = "?closed\<lparr>ss_isOpen := True, m_stringCount := 0\<rparr>"
  have p: "SharedStrings_parse this0 package = (None, ?p)"
    using o a by (simp add: SharedStrings_parse_def Let_def)
  have t: "\<forall>i. tryGetString ?p i = None"
    by (simp add: tryGetString_def)
  then have g: "\<forall>i. \<exists>err. SharedStrings_getString ?p i = Inl err"
    by (simp add: SharedStrings_getString_def)
  have c: "getStringCount ?p = 0" by (simp add: getStringCount_def)
  show "\<exists>this. SharedStrings_parse this0 package = (None, this)
           \<and> getStringCount this = 0
           \<and> (\<forall>i. tryGetString this i = None)
           \<and> (\<forall>i. \<exists>err. SharedStrings_getString this i = Inl err)"
    using p t g c by blast
next
  fix siElements items
  assume o: "pkg_isOpen package"
    and h: "sharedStringsPart package = Present siElements items
             \<and> (\<Sum>si\<leftarrow>items. length (parseStringItem config si) + 1) < 2 ^ 32"
  obtain this1 where
    pw: "parseWithReader (SharedStringsProvider_new config) siElements items = this1"
    and cnt: "m_stringCount this1 = length items"
    and rd: "\<forall>i<length items.
                 (if m_isUsingDisk this1 then readStringFromDisk this1 i
                  else getStringFromArena this1 i)
                   = Some (parseStringItem config (items ! i))"
    using parseWithReader_new [where items = items and config = config and siElements = siElements] h by blast
  let ?p = "this1\<lparr>ss_isOpen := True\<rparr>"
  have p: "SharedStrings_parse (SharedStringsProvider_new config) package = (None, ?p)"
    using o h pw by (simp add: SharedStrings_parse_def Let_def SharedStringsProvider_new_def)
  have c: "getStringCount ?p = length items"
    using cnt by (simp add: getStringCount_def)
  have t: "\<forall>i. tryGetString ?p i =
                 (if i < getStringCount ?p then Some (parseStringItem config (items ! i))
                  else None)"
  proof
    fix i
    show "tryGetString ?p i =
                 (if i < getStringCount ?p then Some (parseStringItem config (items ! i))
                  else None)"
    proof (cases "i < length items")
      case True
      then have "(if m_isUsingDisk this1 then readStringFromDisk this1 i
                  else getStringFromArena this1 i)
                   = Some (parseStringItem config (items ! i))"
        using rd by blast
      then show ?thesis
        using True cnt
        by (auto simp: tryGetString_def getStringCount_def lookup_frame split: if_splits)
    next
      case False
      then show ?thesis using cnt by (simp add: tryGetString_def getStringCount_def)
    qed
  qed
  have g1: "\<forall>i. (\<exists>err. SharedStrings_getString ?p i = Inl err) \<longleftrightarrow> getStringCount ?p \<le> i"
    using t by (auto simp: SharedStrings_getString_def)
  have g2: "\<forall>i. i < getStringCount ?p \<longrightarrow>
                 SharedStrings_getString ?p i = Inr (parseStringItem config (items ! i))"
    using t by (auto simp: SharedStrings_getString_def)
  show "\<exists>this. SharedStrings_parse (SharedStringsProvider_new config) package = (None, this)
           \<and> getStringCount this = length items
           \<and> (\<forall>i. tryGetString this i =
                 (if i < getStringCount this then Some (parseStringItem config (items ! i))
                  else None))
           \<and> (\<forall>i. (\<exists>err. SharedStrings_getString this i = Inl err) \<longleftrightarrow> getStringCount this \<le> i)
           \<and> (\<forall>i. i < getStringCount this \<longrightarrow>
                 SharedStrings_getString this i = Inr (parseStringItem config (items ! i)))"
    using p c t g1 g2 by blast
qed

theorem C9_shared_strings_lookup_witness:
  "(\<exists>this. SharedStrings_parse
             (SharedStringsProvider_new
                \<lparr>mode = Auto, memoryThreshold = 1000, maxStringLength = 5, flattenRichText = True\<rparr>)
             \<lparr>pkg_isOpen = True, sharedStringsPart = Absent\<rparr> = (None, this)
          \<and> getStringCount this = 0 \<and> tryGetString this 0 = None
          \<and> (\<exists>err. SharedStrings_getString this 0 = Inl err))
   \<and> (\<exists>this. SharedStrings_parse
             (SharedStringsProvider_new
                \<lparr>mode = Auto, memoryThreshold = 1000, maxStringLength = 5, flattenRichText = True\<rparr>)
             \<lparr>pkg_isOpen = True,
              sharedStringsPart = Present 2 [[''ab'', ''c''], [''hello world'']]\<rparr> = (None, this)
          \<and> getStringCount this = 2
          \<and> tryGetString this 1 = Some ''hello''
          \<and> tryGetString this 2 = None
          \<and> SharedStrings_getString this 0 = Inr ''abc''
          \<and> (\<exists>err. SharedStrings_getString this 2 = Inl err))"
proof -
  let ?cfg = "\<lparr>mode = Auto, memoryThreshold = 1000, maxStringLength = 5, flattenRichText = True\<rparr>"
  let ?items = "[[''ab'', ''c''], [''hello world'']]"
  have s0: "parseStringItem ?cfg [''ab'', ''c''] = ''abc''"
    and s1: "parseStringItem ?cfg [''hello world''] = ''hello''"
    by (simp_all add: parseStringItem_def c_str_def NUL_def)
  have bound: "(\<Sum>si\<leftarrow>?items. length (parseStringItem ?cfg si) + 1) < 2 ^ 32"
    using s0 s1 by simp
  have absent: "\<exists>this. SharedStrings_parse (SharedStringsProvider_new ?cfg)
             \<lparr>pkg_isOpen = True, sharedStringsPart = Absent\<rparr> = (None, this)
          \<and> getStringCount this = 0 \<and> tryGetString this 0 = None
          \<and> (\<exists>err. SharedStrings_getString this 0 = Inl err)"
    using C9_shared_strings_lookup
      [of "\<lparr>pkg_isOpen = True, sharedStringsPart = Absent\<rparr>" "SharedStringsProvider_new ?cfg"]
    by auto
  obtain this where
    p: "SharedStrings_parse (SharedStringsProvider_new ?cfg)
          \<lparr>pkg_isOpen = True, sharedStringsPart = Present 2 ?items\<rparr> = (None, this)"
    and c: "getStringCount this = length ?items"
    and t: "\<forall>i. tryGetString this i =
                 (if i < getStringCount this then Some (parseStringItem ?cfg (?items ! i))
                  else None)"
    and g1: "\<forall>i. (\<exists>err. SharedStrings_getString this i = Inl err) \<longleftrightarrow> getStringCount this \<le> i"
    and g2: "\<forall>i. i < getStringCount this \<longrightarrow>
                 SharedStrings_getString this i = Inr (parseStringItem ?cfg (?items ! i))"
    using C9_shared_strings_lookup
      [of "\<lparr>pkg_isOpen = True, sharedStringsPart = Present 2 ?items\<rparr>" _ ?cfg] bound
    by (auto simp del: sum_list.Cons)
  have "getStringCount this = 2" using c by simp
  moreover have "tryGetString this 1 = Some ''hello''" using t c s1 by simp
  moreover have "tryGetString this 2 = None" using t c by simp
  moreover have "SharedStrings_getString this 0 = Inr ''abc''" using g2 c s0 by simp
  moreover have "\<exists>err. SharedStrings_getString this 2 = Inl err" using g1 c by simp
  ultimately show ?thesis using absent p by blast
qed

end
